theory Spec2Isabelle
  imports Complex_Main "HOL-Library.Word"
begin

section \<open>JavaScript strings\<close>

text \<open>
  A JavaScript string is a sequence of UTF-16 code units. String literals of the source
  are written \<open>js ''...''\<close>; all of them are ASCII.
\<close>

type_synonym jschar = "16 word"
type_synonym jsstring = "jschar list"

definition js :: "string \<Rightarrow> jsstring" where
  "js s = map of_char s"

text \<open>
  \<open>String.prototype.trim\<close> removes the code units of WhiteSpace and LineTerminator
  (ECMA-262) from both ends.
\<close>

definition is_js_whitespace :: "jschar \<Rightarrow> bool" where
  "is_js_whitespace c \<longleftrightarrow>
     c = 0x0009 \<or> c = 0x000A \<or> c = 0x000B \<or> c = 0x000C \<or> c = 0x000D \<or> c = 0x0020 \<or>
     c = 0x00A0 \<or> c = 0x1680 \<or> (0x2000 \<le> c \<and> c \<le> 0x200A) \<or> c = 0x2028 \<or>
     c = 0x2029 \<or> c = 0x202F \<or> c = 0x205F \<or> c = 0x3000 \<or> c = 0xFEFF"

definition trim :: "jsstring \<Rightarrow> jsstring" where
  "trim s = rev (dropWhile is_js_whitespace (rev (dropWhile is_js_whitespace s)))"

text \<open>
  \<open>s.split(sep)\<close> for a separator of one code unit: the result is never empty, and its
  last element is the text after the last separator.
\<close>

fun split_on :: "jschar \<Rightarrow> jsstring \<Rightarrow> jsstring list" where
  "split_on sep [] = [[]]"
| "split_on sep (c # cs) =
     (if c = sep then [] # split_on sep cs
      else (case split_on sep cs of
              l # ls \<Rightarrow> (c # l) # ls
            | [] \<Rightarrow> [[c]]))"

definition newline :: jschar where
  "newline = 0x000A"

definition startsWith :: "jsstring \<Rightarrow> jsstring \<Rightarrow> bool" where
  "startsWith s p \<longleftrightarrow> take (length p) s = p"

text \<open>\<open>s.substring(start)\<close>: a negative start counts as 0, one past the end gives the empty string.\<close>

definition substring :: "jsstring \<Rightarrow> int \<Rightarrow> jsstring" where
  "substring s start = drop (nat start) s"

text \<open>\<open>s.indexOf(c)\<close> for one code unit: the first position, or -1.\<close>

fun indexOf :: "jsstring \<Rightarrow> jschar \<Rightarrow> int" where
  "indexOf [] c = -1"
| "indexOf (x # xs) c =
     (if x = c then 0 else (let i = indexOf xs c in if i < 0 then -1 else i + 1))"

text \<open>\<open>/does not support thinking/.test(s)\<close> on a string: the phrase occurs somewhere in \<open>s\<close>.\<close>

fun regex_search :: "jsstring \<Rightarrow> jsstring \<Rightarrow> bool" where
  "regex_search [] p = (p = [])"
| "regex_search (c # cs) p = (take (length p) (c # cs) = p \<or> regex_search cs p)"

section \<open>JavaScript values\<close>

text \<open>
  The values \<open>JSON.parse\<close> produces, and \<open>undefined\<close>. A number is an IEEE double; the
  program only passes numbers on and tests them for truthiness, so negative zero is
  identified with zero. An object is the list of its own properties.
\<close>

datatype jsnum = Finite rat | Infinity bool | NaN

datatype jsval =
    JUndefined
  | JNull
  | JBool bool
  | JNum jsnum
  | JStr jsstring
  | JArr "jsval list"
  | JObj "(jsstring \<times> jsval) list"

text \<open>
  What the program throws and catches: the \<open>{status, body}\<close> object of a failed HTTP call,
  and the built-in errors (\<open>SyntaxError\<close> of \<open>JSON.parse\<close>, \<open>TypeError\<close> of a property read
  on \<open>null\<close> or \<open>undefined\<close>, the \<open>Error\<close> of the abstract methods, a network error of
  \<open>fetch\<close>, whatever a callback throws), which carry a name and no \<open>body\<close> property.
\<close>

datatype exn = HttpError nat jsval | JsError string

definition nullish :: "jsval \<Rightarrow> bool" where
  "nullish v \<longleftrightarrow> v = JUndefined \<or> v = JNull"

text \<open>ToBoolean, as \<open>if (v)\<close> and \<open>v || w\<close> apply it.\<close>

fun truthy :: "jsval \<Rightarrow> bool" where
  "truthy JUndefined = False"
| "truthy JNull = False"
| "truthy (JBool b) = b"
| "truthy (JNum (Finite q)) = (q \<noteq> 0)"
| "truthy (JNum (Infinity neg)) = True"
| "truthy (JNum NaN) = False"
| "truthy (JStr s) = (s \<noteq> [])"
| "truthy (JArr xs) = True"
| "truthy (JObj kvs) = True"

definition js_or :: "jsval \<Rightarrow> jsval \<Rightarrow> jsval" where
  "js_or a b = (if truthy a then a else b)"

text \<open>\<open>a ?? b\<close>\<close>

definition nullish_coalesce :: "jsval \<Rightarrow> jsval \<Rightarrow> jsval" where
  "nullish_coalesce a b = (if nullish a then b else a)"

text \<open>
  The property read \<open>v.k\<close>, for the property names this program reads (\<open>done\<close>, \<open>message\<close>,
  \<open>content\<close>, \<open>thinking\<close>, \<open>choices\<close>, \<open>delta\<close>, \<open>error\<close>, \<open>isDone\<close>, \<open>reason\<close>): none of
  them is a property of a built-in prototype, so on a string, a number, a boolean or an
  array the read gives \<open>undefined\<close>; on \<open>null\<close> and \<open>undefined\<close> it throws a TypeError.
\<close>

fun member :: "jsval \<Rightarrow> jsstring \<Rightarrow> exn + jsval" where
  "member JUndefined k = Inl (JsError ''TypeError'')"
| "member JNull k = Inl (JsError ''TypeError'')"
| "member (JObj kvs) k = Inr (case map_of kvs k of Some v \<Rightarrow> v | None \<Rightarrow> JUndefined)"
| "member v k = Inr JUndefined"

text \<open>\<open>v?.k\<close>\<close>

definition opt_member :: "jsval \<Rightarrow> jsstring \<Rightarrow> jsval" where
  "opt_member v k = (if nullish v then JUndefined
                     else (case member v k of Inr x \<Rightarrow> x | Inl e \<Rightarrow> JUndefined))"

text \<open>
  \<open>v[0]\<close> on a value that is not nullish: the first element of an array, the first code
  unit of a string, the property \<open>"0"\<close> of an object.
\<close>

fun index0 :: "jsval \<Rightarrow> jsval" where
  "index0 (JArr xs) = (case xs of [] \<Rightarrow> JUndefined | x # _ \<Rightarrow> x)"
| "index0 (JStr s) = (case s of [] \<Rightarrow> JUndefined | c # _ \<Rightarrow> JStr [c])"
| "index0 (JObj kvs) = (case map_of kvs (js ''0'') of Some v \<Rightarrow> v | None \<Rightarrow> JUndefined)"
| "index0 v = JUndefined"

text \<open>\<open>v?.[0]\<close>\<close>

definition opt_index0 :: "jsval \<Rightarrow> jsval" where
  "opt_index0 v = (if nullish v then JUndefined else index0 v)"

text \<open>Sequencing of computations that may throw, and \<open>try { ... } catch (e) { ... }\<close>.\<close>

definition bind_exn :: "exn + 'a \<Rightarrow> ('a \<Rightarrow> exn + 'b) \<Rightarrow> exn + 'b" where
  "bind_exn m f = (case m of Inl e \<Rightarrow> Inl e | Inr x \<Rightarrow> f x)"

definition try_catch :: "exn + 'a \<Rightarrow> (exn \<Rightarrow> exn + 'a) \<Rightarrow> exn + 'a" where
  "try_catch m h = (case m of Inl e \<Rightarrow> h e | Inr x \<Rightarrow> Inr x)"

section \<open>Stream line parsers\<close>

text \<open>
  \<open>JSON.parse\<close> belongs to the platform, not to this program: it is a parameter
  \<open>JSON_parse\<close>, \<open>None\<close> when it throws a SyntaxError. The logger is taken to have no
  effect.
\<close>

type_synonym json_parser = "jsstring \<Rightarrow> jsval option"

definition parse_or_throw :: "json_parser \<Rightarrow> jsstring \<Rightarrow> exn + jsval" where
  "parse_or_throw JSON_parse s =
     (case JSON_parse s of None \<Rightarrow> Inl (JsError ''SyntaxError'') | Some v \<Rightarrow> Inr v)"

text \<open>\<open>AIProvider._parseStreamLine\<close>, the abstract method.\<close>

definition AIProvider_parseStreamLine :: "jsstring \<Rightarrow> exn + jsval" where
  "AIProvider_parseStreamLine line = Inl (JsError ''Error'')"

definition OpenAI_parseStreamLine :: "json_parser \<Rightarrow> jsstring \<Rightarrow> exn + jsval" where
  "OpenAI_parseStreamLine JSON_parse line =
     (if line = js ''data: [DONE]'' then
        Inr (JObj [(js ''isDone'', JBool True), (js ''reason'', JStr (js ''DONE sentinel''))])
      else if \<not> startsWith line (js ''data: '') then
        Inr (JObj [])
      else
        (let jsonStr = substring line (int (length (js ''data: ''))) in
         try_catch
           (bind_exn (parse_or_throw JSON_parse jsonStr) (\<lambda>obj.
            bind_exn (member obj (js ''choices'')) (\<lambda>choices.
            (let msg = nullish_coalesce
                         (opt_member (opt_index0 choices) (js ''delta'')) (JObj []) in
             bind_exn (member msg (js ''content'')) (\<lambda>content.
             Inr (JObj [(js ''content'', content)]))))))
           (\<lambda>e. Inr (JObj []))))"

definition SelfHosted_parseStreamLine :: "json_parser \<Rightarrow> jsstring \<Rightarrow> exn + jsval" where
  "SelfHosted_parseStreamLine JSON_parse line =
     try_catch
       (bind_exn (parse_or_throw JSON_parse line) (\<lambda>obj.
        bind_exn (member obj (js ''done'')) (\<lambda>done.
        if done = JBool True then
          Inr (JObj [(js ''isDone'', JBool True),
                     (js ''reason'', JStr (js ''self-hosted DONE''))])
        else
          bind_exn (member obj (js ''message'')) (\<lambda>message.
          (let msg = nullish_coalesce message (JObj []) in
           bind_exn (member msg (js ''content'')) (\<lambda>content.
           bind_exn (member msg (js ''thinking'')) (\<lambda>thinking.
           Inr (JObj [(js ''content'', content), (js ''thinking'', thinking)]))))))))
       (\<lambda>e. Inr (JObj []))"

section \<open>The stream reducer\<close>

text \<open>
  The callbacks are code of the caller: each one runs on the caller's state \<open>'w\<close>, and
  either returns or throws. A run of the reducer keeps, next to that state, the log of the
  callback invocations it made, in order.
\<close>

datatype event = OnContent jsstring | OnThinking jsstring | OnDone

record 'w callbacks =
  onContent :: "jsstring \<Rightarrow> 'w \<Rightarrow> exn option \<times> 'w"
  onThinking :: "jsstring \<Rightarrow> 'w \<Rightarrow> exn option \<times> 'w"
  onDone :: "'w \<Rightarrow> exn option \<times> 'w"

type_synonym 'w run = "event list \<times> 'w"

definition call_onContent ::
  "('w, 'z) callbacks_scheme \<Rightarrow> jsstring \<Rightarrow> 'w run \<Rightarrow> exn option \<times> 'w run" where
  "call_onContent cbs s st =
     (case onContent cbs s (snd st) of (r, w') \<Rightarrow> (r, (fst st @ [OnContent s], w')))"

definition call_onThinking ::
  "('w, 'z) callbacks_scheme \<Rightarrow> jsstring \<Rightarrow> 'w run \<Rightarrow> exn option \<times> 'w run" where
  "call_onThinking cbs s st =
     (case onThinking cbs s (snd st) of (r, w') \<Rightarrow> (r, (fst st @ [OnThinking s], w')))"

definition call_onDone ::
  "('w, 'z) callbacks_scheme \<Rightarrow> 'w run \<Rightarrow> exn option \<times> 'w run" where
  "call_onDone cbs st =
     (case onDone cbs (snd st) of (r, w') \<Rightarrow> (r, (fst st @ [OnDone], w')))"

text \<open>
  How a block of statements ends: it runs to its end (with a value), it executes
  \<open>return\<close>, or it throws.
\<close>

datatype 'a completion = Normal 'a | Returned | Thrown exn

text \<open>
  \<open>new TextDecoder()\<close> belongs to the platform: a decoder is a parameter, given by its
  initial state and by what it does with one more byte of input (the text it emits, and
  its new state, which holds the bytes of an unfinished character).
  \<open>decoder.decode(chunk, {stream: true})\<close> feeds the bytes of the chunk in order.
\<close>

type_synonym byte = "8 word"

record 'd text_decoder =
  initial :: 'd
  feed :: "'d \<Rightarrow> byte \<Rightarrow> jsstring \<times> 'd"

fun decode :: "('d, 'y) text_decoder_scheme \<Rightarrow> 'd \<Rightarrow> byte list \<Rightarrow> jsstring \<times> 'd" where
  "decode decoder d [] = ([], d)"
| "decode decoder d (b # bs) =
     (case feed decoder d b of (t, d1) \<Rightarrow>
        (case decode decoder d1 bs of (ts, d2) \<Rightarrow> (t @ ts, d2)))"

text \<open>
  \<open>resp.body\<close>, iterated by \<open>for await\<close>: the chunks it yields, then either its end or
  the error it fails with.
\<close>

record stream_body =
  chunks :: "byte list list"
  failure :: "exn option"

text \<open>Lines 64-65 and 74-75 of the reducer: the two callbacks for one parsed line.\<close>

definition emit :: "('w, 'z) callbacks_scheme \<Rightarrow> jsval \<Rightarrow> 'w run \<Rightarrow> unit completion \<times> 'w run" where
  "emit cbs result st =
     (case member result (js ''content'') of
        Inl e \<Rightarrow> (Thrown e, st)
      | Inr content \<Rightarrow>
          (case (case content of JStr s \<Rightarrow> call_onContent cbs s st | _ \<Rightarrow> (None, st)) of
             (Some e, st1) \<Rightarrow> (Thrown e, st1)
           | (None, st1) \<Rightarrow>
               (case member result (js ''thinking'') of
                  Inl e \<Rightarrow> (Thrown e, st1)
                | Inr thinking \<Rightarrow>
                    (case (case thinking of JStr s \<Rightarrow> call_onThinking cbs s st1
                                          | _ \<Rightarrow> (None, st1)) of
                       (Some e, st2) \<Rightarrow> (Thrown e, st2)
                     | (None, st2) \<Rightarrow> (Normal (), st2)))))"

text \<open>The inner loop, \<open>for (const raw of lines)\<close>.\<close>

fun process_lines ::
  "(jsstring \<Rightarrow> exn + jsval) \<Rightarrow> ('w, 'z) callbacks_scheme \<Rightarrow> jsstring list \<Rightarrow> 'w run
     \<Rightarrow> unit completion \<times> 'w run" where
  "process_lines parseStreamLine cbs [] st = (Normal (), st)"
| "process_lines parseStreamLine cbs (raw # rest) st =
     (let line = trim raw in
      if line = [] then process_lines parseStreamLine cbs rest st
      else
        (case parseStreamLine line of
           Inl e \<Rightarrow> (Thrown e, st)
         | Inr result \<Rightarrow>
             (case member result (js ''isDone'') of
                Inl e \<Rightarrow> (Thrown e, st)
              | Inr isDone \<Rightarrow>
                  if truthy isDone then
                    (case call_onDone cbs st of
                       (Some e, st1) \<Rightarrow> (Thrown e, st1)
                     | (None, st1) \<Rightarrow> (Returned, st1))
                  else
                    (case emit cbs result st of
                       (Normal u, st1) \<Rightarrow> process_lines parseStreamLine cbs rest st1
                     | (Returned, st1) \<Rightarrow> (Returned, st1)
                     | (Thrown e, st1) \<Rightarrow> (Thrown e, st1)))))"

text \<open>
  The outer loop, \<open>for await (const chunk of resp.body)\<close>, over the chunks the body
  yields; when it runs to its end its value is \<open>leftover\<close>.
\<close>

fun for_await ::
  "(jsstring \<Rightarrow> exn + jsval) \<Rightarrow> ('w, 'z) callbacks_scheme \<Rightarrow> ('d, 'y) text_decoder_scheme
     \<Rightarrow> byte list list \<Rightarrow> 'd \<Rightarrow> jsstring \<Rightarrow> 'w run \<Rightarrow> jsstring completion \<times> 'w run" where
  "for_await parseStreamLine cbs decoder [] d leftover st = (Normal leftover, st)"
| "for_await parseStreamLine cbs decoder (chunk # rest) d leftover st =
     (case decode decoder d chunk of (text, d1) \<Rightarrow>
        (let lines = split_on newline (leftover @ text) in
         (case process_lines parseStreamLine cbs (butlast lines) st of
            (Normal u, st1) \<Rightarrow> for_await parseStreamLine cbs decoder rest d1 (last lines) st1
          | (Returned, st1) \<Rightarrow> (Returned, st1)
          | (Thrown e, st1) \<Rightarrow> (Thrown e, st1))))"

text \<open>Lines 70-77: the text after the last newline is parsed once the body has ended.\<close>

definition flush_leftover ::
  "(jsstring \<Rightarrow> exn + jsval) \<Rightarrow> ('w, 'z) callbacks_scheme \<Rightarrow> jsstring \<Rightarrow> 'w run
     \<Rightarrow> unit completion \<times> 'w run" where
  "flush_leftover parseStreamLine cbs leftover st =
     (if trim leftover \<noteq> [] then
        (let line = trim leftover in
         (case parseStreamLine line of
            Inl e \<Rightarrow> (Thrown e, st)
          | Inr result \<Rightarrow>
              (case member result (js ''isDone'') of
                 Inl e \<Rightarrow> (Thrown e, st)
               | Inr isDone \<Rightarrow>
                   if \<not> truthy isDone then emit cbs result st else (Normal (), st))))
      else (Normal (), st))"

text \<open>The \<open>try\<close> block of \<open>_streamNDJSON\<close>, lines 44-80.\<close>

definition streamNDJSON_try ::
  "(jsstring \<Rightarrow> exn + jsval) \<Rightarrow> ('d, 'y) text_decoder_scheme \<Rightarrow> stream_body
     \<Rightarrow> ('w, 'z) callbacks_scheme \<Rightarrow> 'w run \<Rightarrow> unit completion \<times> 'w run" where
  "streamNDJSON_try parseStreamLine decoder body cbs st =
     (case for_await parseStreamLine cbs decoder (chunks body) (initial decoder) [] st of
        (Returned, st1) \<Rightarrow> (Returned, st1)
      | (Thrown e, st1) \<Rightarrow> (Thrown e, st1)
      | (Normal leftover, st1) \<Rightarrow>
          (case failure body of
             Some e \<Rightarrow> (Thrown e, st1)
           | None \<Rightarrow>
               (case flush_leftover parseStreamLine cbs leftover st1 of
                  (Normal u, st2) \<Rightarrow>
                    (case call_onDone cbs st2 of
                       (Some e, st3) \<Rightarrow> (Thrown e, st3)
                     | (None, st3) \<Rightarrow> (Normal (), st3))
                | (Returned, st2) \<Rightarrow> (Returned, st2)
                | (Thrown e, st2) \<Rightarrow> (Thrown e, st2))))"

text \<open>
  \<open>AIProvider._streamNDJSON\<close>, with the \<open>_parseStreamLine\<close> of the provider as a parameter.
  The \<open>catch\<close> clause calls \<open>onDone\<close>; what that call throws leaves the function. The
  result is the error the function throws, if any, and the run: the log of the callback
  invocations (a top-level call starts from the empty log), and the caller's state.
\<close>

definition streamNDJSON ::
  "(jsstring \<Rightarrow> exn + jsval) \<Rightarrow> ('d, 'y) text_decoder_scheme \<Rightarrow> stream_body
     \<Rightarrow> ('w, 'z) callbacks_scheme \<Rightarrow> 'w run \<Rightarrow> exn option \<times> 'w run" where
  "streamNDJSON parseStreamLine decoder body cbs st0 =
     (case streamNDJSON_try parseStreamLine decoder body cbs st0 of
        (Thrown e, st) \<Rightarrow> call_onDone cbs st
      | (Normal u, st) \<Rightarrow> (None, st)
      | (Returned, st) \<Rightarrow> (None, st))"

section \<open>Requests and responses\<close>

text \<open>
  A message of the normalized request: \<open>content\<close> is a string, or an array of parts
  \<open>{type: 'text', text}\<close>, \<open>{type: 'image_url', image_url: {url}}\<close> or of another type.
  The key \<open>images\<close> is absent (\<open>None\<close>) unless the adapter below adds it.
\<close>

datatype content_part = TextPart jsstring | ImageUrlPart jsstring | OtherPart

datatype content = Text jsstring | Parts "content_part list"

record message =
  role :: jsstring
  content :: content
  images :: "jsstring list option"

text \<open>The request configuration; it carries the callbacks of a streaming call.\<close>

record 'w config = "'w callbacks" +
  model :: jsstring
  messages :: "message list"
  temperature :: jsval
  maxTokens :: jsval
  think :: bool
  stream :: bool

record openai_payload =
  c_model :: jsstring
  c_messages :: "message list"
  c_temperature :: jsval
  c_stream :: bool
  c_max_tokens :: jsval

record ollama_payload =
  o_model :: jsstring
  o_messages :: "message list"
  o_stream :: bool
  o_options_temperature :: jsval
  o_options_num_predict :: jsval
  o_think :: bool

text \<open>
  What \<open>fetch\<close> resolves to: the status, the body as \<open>resp.text()\<close> reads it, and the
  body as the iteration of \<open>resp.body\<close> yields it. \<open>fetch\<close> itself is the transport, a
  parameter: it acts on the state \<open>'w\<close> of the world, and fails (\<open>Inl\<close>) on a network error.
  The URL and the headers of a provider are fixed, so a request is given by its payload.
\<close>

record response =
  resp_ok :: bool
  resp_status :: nat
  resp_text :: jsstring
  resp_body :: stream_body

type_synonym ('p, 'w) transport = "'p \<Rightarrow> 'w \<Rightarrow> (exn + response) \<times> 'w"

text \<open>\<open>resp.json()\<close>\<close>

definition resp_json :: "json_parser \<Rightarrow> response \<Rightarrow> exn + jsval" where
  "resp_json JSON_parse resp = parse_or_throw JSON_parse (resp_text resp)"

section \<open>The cloud provider\<close>

definition OpenAI_buildPayload :: "('w, 'z) config_scheme \<Rightarrow> openai_payload" where
  "OpenAI_buildPayload config =
     \<lparr>c_model = model config, c_messages = messages config,
      c_temperature = temperature config, c_stream = stream config,
      c_max_tokens = maxTokens config\<rparr>"

definition OpenAI_sendRequestInternal ::
  "(openai_payload, 'w) transport \<Rightarrow> ('w, 'z) config_scheme \<Rightarrow> 'w \<Rightarrow> (exn + response) \<times> 'w" where
  "OpenAI_sendRequestInternal fetch config w =
     (let payload = OpenAI_buildPayload config in
      (case fetch payload w of
         (Inl e, w1) \<Rightarrow> (Inl e, w1)
       | (Inr resp, w1) \<Rightarrow>
           if \<not> resp_ok resp then
             (let txt = resp_text resp in (Inl (HttpError (resp_status resp) (JStr txt)), w1))
           else (Inr resp, w1)))"

definition OpenAI_generateResponse ::
  "(openai_payload, 'w) transport \<Rightarrow> json_parser \<Rightarrow> ('w, 'z) config_scheme \<Rightarrow> 'w
     \<Rightarrow> (exn + jsval) \<times> 'w" where
  "OpenAI_generateResponse fetch JSON_parse config w =
     (case OpenAI_sendRequestInternal fetch (config\<lparr>stream := False\<rparr>) w of
        (Inl e, w1) \<Rightarrow> (Inl e, w1)
      | (Inr resp, w1) \<Rightarrow>
          (case resp_json JSON_parse resp of
             Inl e \<Rightarrow> (Inl e, w1)
           | Inr data \<Rightarrow>
               (Inr (js_or (opt_member (opt_member (opt_index0 (opt_member data (js ''choices'')))
                              (js ''message'')) (js ''content'')) (JStr [])), w1)))"

definition OpenAI_streamResponse ::
  "(openai_payload, 'w) transport \<Rightarrow> json_parser \<Rightarrow> ('d, 'y) text_decoder_scheme
     \<Rightarrow> ('w, 'z) config_scheme \<Rightarrow> 'w run \<Rightarrow> exn option \<times> 'w run" where
  "OpenAI_streamResponse fetch JSON_parse decoder config st =
     (case OpenAI_sendRequestInternal fetch (config\<lparr>stream := True\<rparr>) (snd st) of
        (Inl e, w1) \<Rightarrow> (Some e, (fst st, w1))
      | (Inr resp, w1) \<Rightarrow>
          streamNDJSON (OpenAI_parseStreamLine JSON_parse) decoder (resp_body resp) config
            (fst st, w1))"

section \<open>The self-hosted provider\<close>

definition comma :: jschar where
  "comma = 0x002C"

text \<open>The loop \<open>for (const part of msg.content)\<close>, on \<open>textContent\<close> and \<open>ollamaMsg.images\<close>.\<close>

fun for_parts :: "content_part list \<Rightarrow> jsstring \<times> jsstring list \<Rightarrow> jsstring \<times> jsstring list" where
  "for_parts [] acc = acc"
| "for_parts (TextPart text # rest) (textContent, imgs) =
     for_parts rest (textContent @ text @ js '' '', imgs)"
| "for_parts (ImageUrlPart url # rest) (textContent, imgs) =
     (if url \<noteq> [] then
        (let dataUrl = url;
             base64Data = substring dataUrl (indexOf dataUrl comma + 1)
         in for_parts rest (textContent, imgs @ [base64Data]))
      else for_parts rest (textContent, imgs))"
| "for_parts (OtherPart # rest) (textContent, imgs) = for_parts rest (textContent, imgs)"

text \<open>The loop \<open>for (const msg of messages)\<close>, on \<open>processedMessages\<close>.\<close>

fun for_messages :: "message list \<Rightarrow> message list \<Rightarrow> message list" where
  "for_messages [] processedMessages = processedMessages"
| "for_messages (msg # rest) processedMessages =
     (case content msg of
        Parts parts \<Rightarrow>
          if role msg = js ''user'' then
            (case for_parts parts ([], []) of
               (textContent, imgs) \<Rightarrow>
                 (let ollamaMsg = \<lparr>role = js ''user'', content = Text (trim textContent),
                                   images = Some imgs\<rparr>
                  in if length imgs = 0 then
                       for_messages rest
                         (processedMessages @
                            [\<lparr>role = js ''user'', content = content ollamaMsg, images = None\<rparr>])
                     else for_messages rest (processedMessages @ [ollamaMsg])))
          else for_messages rest (processedMessages @ [msg])
      | Text t \<Rightarrow> for_messages rest (processedMessages @ [msg]))"

definition processMessagesForOllama :: "message list \<Rightarrow> message list" where
  "processMessagesForOllama msgs = for_messages msgs []"

definition SelfHosted_buildPayload :: "('w, 'z) config_scheme \<Rightarrow> ollama_payload" where
  "SelfHosted_buildPayload config =
     (let processedMessages = processMessagesForOllama (messages config) in
      \<lparr>o_model = model config, o_messages = processedMessages, o_stream = stream config,
       o_options_temperature = temperature config, o_options_num_predict = maxTokens config,
       o_think = think config\<rparr>)"

definition SelfHosted_sendRequestInternal ::
  "(ollama_payload, 'w) transport \<Rightarrow> json_parser \<Rightarrow> ('w, 'z) config_scheme \<Rightarrow> 'w
     \<Rightarrow> (exn + response) \<times> 'w" where
  "SelfHosted_sendRequestInternal fetch JSON_parse config w =
     (let payload = SelfHosted_buildPayload config in
      (case fetch payload w of
         (Inl e, w1) \<Rightarrow> (Inl e, w1)
       | (Inr resp, w1) \<Rightarrow>
           if \<not> resp_ok resp then
             (let txt = resp_text resp;
                  body = (case JSON_parse txt of Some v \<Rightarrow> v | None \<Rightarrow> JStr txt)
              in (Inl (HttpError (resp_status resp) body), w1))
           else (Inr resp, w1)))"

text \<open>\<open>err.body?.error || ''\<close>: only the \<open>{status, body}\<close> object has a \<open>body\<close>.\<close>

fun err_body :: "exn \<Rightarrow> jsval" where
  "err_body (HttpError st b) = b"
| "err_body (JsError n) = JUndefined"

definition errorMsg :: "exn \<Rightarrow> jsval" where
  "errorMsg err = js_or (opt_member (err_body err) (js ''error'')) (JStr [])"

text \<open>
  \<open>/does not support thinking/.test(errorMsg)\<close>. The test converts its argument to a
  string (ToString), which can throw, and searches the string.
  \<^item> A string is searched as it is.
  \<^item> An object is converted by its method \<open>toString\<close>, then by \<open>valueOf\<close>. An object that
    \<open>JSON.parse\<close> made holds no function: when it has a property \<open>toString\<close> of its own,
    that property is not callable, \<open>valueOf\<close> (its own, not callable, or the inherited one,
    which returns the object) gives no primitive value either, and the conversion throws
    a TypeError. Without a \<open>toString\<close> of its own the object becomes \<open>[object Object]\<close>,
    in which the phrase does not occur.
  \<^item> An array becomes the string forms of its elements (the empty string for \<open>null\<close> and
    \<open>undefined\<close>) joined by commas, so the conversion throws when the conversion of an
    element does; the phrase has no comma, so it occurs in the joined string exactly when
    it occurs in the string form of an element.
  \<^item> The string forms of \<open>undefined\<close>, \<open>null\<close>, a boolean and a number (digits, a sign, a
    point, an exponent, \<open>Infinity\<close>, \<open>NaN\<close>) do not contain the phrase.
\<close>

fun does_not_support_thinking_test :: "jsval \<Rightarrow> exn + bool" where
  "does_not_support_thinking_test (JStr s) =
     Inr (regex_search s (js ''does not support thinking''))"
| "does_not_support_thinking_test (JObj kvs) =
     (if map_of kvs (js ''toString'') \<noteq> None then Inl (JsError ''TypeError'') else Inr False)"
| "does_not_support_thinking_test (JArr xs) =
     (if list_ex (\<lambda>x. does_not_support_thinking_test x = Inl (JsError ''TypeError'')) xs
      then Inl (JsError ''TypeError'')
      else Inr (list_ex (\<lambda>x. does_not_support_thinking_test x = Inr True) xs))"
| "does_not_support_thinking_test v = Inr False"

text \<open>Lines 326-328 and 341-343: send, read the body as JSON, extract the content.\<close>

definition SelfHosted_bulk_request ::
  "(ollama_payload, 'w) transport \<Rightarrow> json_parser \<Rightarrow> ('w, 'z) config_scheme \<Rightarrow> 'w
     \<Rightarrow> (exn + jsval) \<times> 'w" where
  "SelfHosted_bulk_request fetch JSON_parse config w =
     (case SelfHosted_sendRequestInternal fetch JSON_parse config w of
        (Inl e, w1) \<Rightarrow> (Inl e, w1)
      | (Inr resp, w1) \<Rightarrow>
          (case resp_json JSON_parse resp of
             Inl e \<Rightarrow> (Inl e, w1)
           | Inr data \<Rightarrow>
               (Inr (js_or (opt_member (opt_member data (js ''message'')) (js ''content''))
                       (JStr [])), w1)))"

definition SelfHosted_generateResponse ::
  "(ollama_payload, 'w) transport \<Rightarrow> json_parser \<Rightarrow> ('w, 'z) config_scheme \<Rightarrow> 'w
     \<Rightarrow> (exn + jsval) \<times> 'w" where
  "SelfHosted_generateResponse fetch JSON_parse config w =
     (if think config then
        (case SelfHosted_bulk_request fetch JSON_parse
                (config\<lparr>stream := False, think := True\<rparr>) w of
           (Inr v, w1) \<Rightarrow> (Inr v, w1)
         | (Inl err, w1) \<Rightarrow>
             (case does_not_support_thinking_test (errorMsg err) of
                Inl type_error \<Rightarrow> (Inl type_error, w1)
              | Inr matched \<Rightarrow>
                  if matched then
                    SelfHosted_bulk_request fetch JSON_parse
                      (config\<lparr>stream := False, think := False\<rparr>) w1
                  else (Inl err, w1)))
      else
        SelfHosted_bulk_request fetch JSON_parse (config\<lparr>stream := False, think := False\<rparr>) w)"

text \<open>Lines 349-350 and 362-363: send, then reduce the stream with the callbacks of \<open>config\<close>.\<close>

definition SelfHosted_stream_request ::
  "(ollama_payload, 'w) transport \<Rightarrow> json_parser \<Rightarrow> ('d, 'y) text_decoder_scheme
     \<Rightarrow> ('w, 'z) config_scheme \<Rightarrow> ('w, 'z) config_scheme \<Rightarrow> 'w run \<Rightarrow> exn option \<times> 'w run" where
  "SelfHosted_stream_request fetch JSON_parse decoder request config st =
     (case SelfHosted_sendRequestInternal fetch JSON_parse request (snd st) of
        (Inl e, w1) \<Rightarrow> (Some e, (fst st, w1))
      | (Inr resp, w1) \<Rightarrow>
          streamNDJSON (SelfHosted_parseStreamLine JSON_parse) decoder (resp_body resp) config
            (fst st, w1))"

definition SelfHosted_streamResponse ::
  "(ollama_payload, 'w) transport \<Rightarrow> json_parser \<Rightarrow> ('d, 'y) text_decoder_scheme
     \<Rightarrow> ('w, 'z) config_scheme \<Rightarrow> 'w run \<Rightarrow> exn option \<times> 'w run" where
  "SelfHosted_streamResponse fetch JSON_parse decoder config st =
     (if think config then
        (case SelfHosted_stream_request fetch JSON_parse decoder
                (config\<lparr>stream := True, think := True\<rparr>) config st of
           (None, st1) \<Rightarrow> (None, st1)
         | (Some err, st1) \<Rightarrow>
             (case does_not_support_thinking_test (errorMsg err) of
                Inl type_error \<Rightarrow> (Some type_error, st1)
              | Inr matched \<Rightarrow>
                  if matched then
                    SelfHosted_stream_request fetch JSON_parse decoder
                      (config\<lparr>stream := True, think := False\<rparr>) config st1
                  else (Some err, st1)))
      else
        SelfHosted_stream_request fetch JSON_parse decoder
          (config\<lparr>stream := True, think := False\<rparr>) config st)"

section \<open>The notions of the specification\<close>

text \<open>
  What the reducer looks at in an increment: \<open>result.isDone\<close> as a condition,
  \<open>typeof result.content === 'string'\<close> and \<open>typeof result.thinking === 'string'\<close>.
\<close>

definition is_done :: "jsval \<Rightarrow> bool" where
  "is_done result = (case member result (js ''isDone'') of Inr v \<Rightarrow> truthy v | Inl e \<Rightarrow> False)"

definition content_of :: "jsval \<Rightarrow> jsstring option" where
  "content_of result =
     (case member result (js ''content'') of Inr (JStr s) \<Rightarrow> Some s | _ \<Rightarrow> None)"

definition thinking_of :: "jsval \<Rightarrow> jsstring option" where
  "thinking_of result =
     (case member result (js ''thinking'') of Inr (JStr s) \<Rightarrow> Some s | _ \<Rightarrow> None)"

text \<open>
  A path such as \<open>choices[0].delta.content\<close> in a JSON value: a sequence of property names
  and of the index 0. The path is lacking where a step finds nothing.
\<close>

datatype path_step = Key jsstring | Index0

fun step_into :: "jsval \<Rightarrow> path_step \<Rightarrow> jsval option" where
  "step_into (JObj kvs) (Key k) = map_of kvs k"
| "step_into (JObj kvs) Index0 = map_of kvs (js ''0'')"
| "step_into (JArr xs) Index0 = (case xs of [] \<Rightarrow> None | x # _ \<Rightarrow> Some x)"
| "step_into (JStr s) Index0 = (case s of [] \<Rightarrow> None | c # _ \<Rightarrow> Some (JStr [c]))"
| "step_into v p = None"

fun path_lookup :: "jsval \<Rightarrow> path_step list \<Rightarrow> jsval option" where
  "path_lookup v [] = Some v"
| "path_lookup v (p # ps) =
     (case step_into v p of None \<Rightarrow> None | Some v' \<Rightarrow> path_lookup v' ps)"

text \<open>What a path reads as: the value it leads to, \<open>undefined\<close> where it is lacking.\<close>

fun or_undefined :: "jsval option \<Rightarrow> jsval" where
  "or_undefined None = JUndefined"
| "or_undefined (Some v) = v"

definition cloud_delta_path :: "path_step list" where
  "cloud_delta_path = [Key (js ''choices''), Index0, Key (js ''delta''), Key (js ''content'')]"

definition cloud_bulk_path :: "path_step list" where
  "cloud_bulk_path = [Key (js ''choices''), Index0, Key (js ''message''), Key (js ''content'')]"

definition selfhosted_bulk_path :: "path_step list" where
  "selfhosted_bulk_path = [Key (js ''message''), Key (js ''content'')]"

text \<open>
  The retry state machine of the specification (4.5), over any kind of attempt: an attempt
  is made with \<open>think\<close> set or not, in a state, and gives a result and a new state;
  \<open>failed\<close> reads the error off a failed result. AttemptWithThink is entered only if
  thinking was requested; success is terminal; a failure that matches leads to
  AttemptWithoutThink, whose result is terminal; any other failure is terminal.
\<close>

definition retry_state_machine ::
  "(bool \<Rightarrow> 's \<Rightarrow> 'r \<times> 's) \<Rightarrow> ('r \<Rightarrow> exn option) \<Rightarrow> (exn \<Rightarrow> bool) \<Rightarrow> bool \<Rightarrow> 's \<Rightarrow> 'r \<times> 's" where
  "retry_state_machine attempt failed matches requested s =
     (if requested then
        (case attempt True s of (r, s1) \<Rightarrow>
           (case failed r of
              None \<Rightarrow> (r, s1)
            | Some err \<Rightarrow> if matches err then attempt False s1 else (r, s1)))
      else attempt False s)"

fun bulk_failed :: "exn + jsval \<Rightarrow> exn option" where
  "bulk_failed (Inl e) = Some e"
| "bulk_failed (Inr v) = None"

text \<open>
  The test of the \<open>catch\<close> clauses of the self-hosted provider on what they caught: the
  test of line 331 (and 354) on the error message of line 330 (and 353). It gives
  \<open>true\<close> or \<open>false\<close>, or throws. An error matches when the test gives \<open>true\<close>.
\<close>

definition thinking_unsupported :: "exn \<Rightarrow> exn + bool" where
  "thinking_unsupported err = does_not_support_thinking_test (errorMsg err)"

definition error_matches :: "exn \<Rightarrow> bool" where
  "error_matches err \<longleftrightarrow> thinking_unsupported err = Inr True"

text \<open>
  The Message/Image Adapter as the specification words it (4.4): the text parts
  space-joined and trimmed, the payloads of the image parts with the prefix stripped, no
  image key for an empty image list, any other message unchanged. Which image parts
  count is a parameter \<open>counts\<close>, a condition on the URL of the part.
\<close>

fun space_joined :: "jsstring list \<Rightarrow> jsstring" where
  "space_joined [] = []"
| "space_joined [t] = t"
| "space_joined (t # ts) = t @ js '' '' @ space_joined ts"

fun text_parts :: "content_part list \<Rightarrow> jsstring list" where
  "text_parts [] = []"
| "text_parts (TextPart t # ps) = t # text_parts ps"
| "text_parts (p # ps) = text_parts ps"

fun image_urls :: "content_part list \<Rightarrow> jsstring list" where
  "image_urls [] = []"
| "image_urls (ImageUrlPart u # ps) = u # image_urls ps"
| "image_urls (p # ps) = image_urls ps"

definition base64_payload :: "jsstring \<Rightarrow> jsstring" where
  "base64_payload url = substring url (indexOf url comma + 1)"

definition adapt :: "(jsstring \<Rightarrow> bool) \<Rightarrow> message \<Rightarrow> message" where
  "adapt counts msg =
     (case content msg of
        Text t \<Rightarrow> msg
      | Parts parts \<Rightarrow>
          if role msg = js ''user'' then
            (let imgs = map base64_payload (filter counts (image_urls parts)) in
             \<lparr>role = js ''user'', content = Text (trim (space_joined (text_parts parts))),
              images = (if imgs = [] then None else Some imgs)\<rparr>)
          else msg)"

text \<open>
  How many invocations of \<open>onDone\<close> a block of the reducer makes when \<open>onDone\<close> returns
  normally, by the way the block ends: a loop makes one exactly when it executes
  \<open>return\<close>; the \<open>try\<close> block makes one unless it throws.
\<close>

fun done_added :: "'a completion \<Rightarrow> nat" where
  "done_added Returned = 1"
| "done_added c = 0"

fun done_by_try :: "'a completion \<Rightarrow> nat" where
  "done_by_try (Thrown e) = 0"
| "done_by_try c = 1"

section \<open>Instances of the parameters, for the examples\<close>

text \<open>
  \<open>JSON.parse\<close> on the texts of the examples; this table rejects any other text.
\<close>

definition example_JSON_texts :: "(jsstring \<times> jsval) list" where
  \<open>example_JSON_texts =
     [(js ''{"message":{"content":"a"}}'',
         JObj [(js ''message'', JObj [(js ''content'', JStr (js ''a''))])]),
      (js ''{"message":{"content":"b"}}'',
         JObj [(js ''message'', JObj [(js ''content'', JStr (js ''b''))])]),
      (js ''{"message":{"content":"'' @ [0x00E9] @ js ''"}}'',
         JObj [(js ''message'', JObj [(js ''content'', JStr [0x00E9])])]),
      (js ''{"done":true}'', JObj [(js ''done'', JBool True)]),
      (js ''{"message":{"thinking":"hm"}}'',
         JObj [(js ''message'', JObj [(js ''thinking'', JStr (js ''hm''))])]),
      (js ''{"message":{"content":"hello"}}'',
         JObj [(js ''message'', JObj [(js ''content'', JStr (js ''hello''))])]),
      (js ''{"message":{}}'', JObj [(js ''message'', JObj [])]),
      (js ''{"error":"model does not support thinking"}'',
         JObj [(js ''error'', JStr (js ''model does not support thinking''))]),
      (js ''{"error":"model not found"}'',
         JObj [(js ''error'', JStr (js ''model not found''))]),
      (js ''{"error":{"toString":0}}'',
         JObj [(js ''error'', JObj [(js ''toString'', JNum (Finite 0))])]),
      (js ''{"choices":[{"delta":{"content":"x"}}]}'',
         JObj [(js ''choices'',
                JArr [JObj [(js ''delta'', JObj [(js ''content'', JStr (js ''x''))])]])]),
      (js ''{"choices":[{"delta":{}}]}'',
         JObj [(js ''choices'', JArr [JObj [(js ''delta'', JObj [])]])]),
      (js ''{"choices":[]}'', JObj [(js ''choices'', JArr [])])]\<close>

definition example_JSON_parse :: json_parser where
  "example_JSON_parse = map_of example_JSON_texts"

text \<open>
  The decoder \<open>new TextDecoder()\<close> constructs: the UTF-8 decoder of the WHATWG Encoding
  Standard, which holds an unfinished character in its state, emits U+FFFD for a
  malformed sequence, drops a byte order mark at the start, and writes a code point above
  U+FFFF as two UTF-16 code units.
\<close>

record utf8_state =
  code_point :: "32 word"
  bytes_seen :: nat
  bytes_needed :: nat
  lower_boundary :: byte
  upper_boundary :: byte
  bom_seen :: bool

definition utf8_initial :: utf8_state where
  "utf8_initial = \<lparr>code_point = 0, bytes_seen = 0, bytes_needed = 0,
                    lower_boundary = 0x80, upper_boundary = 0xBF, bom_seen = False\<rparr>"

definition utf16_encode :: "32 word \<Rightarrow> jsstring" where
  "utf16_encode cp =
     (if cp < 0x10000 then [ucast cp]
      else (let v = cp - 0x10000 in
            [0xD800 + ucast (drop_bit 10 v), 0xDC00 + ucast (take_bit 10 v)]))"

definition utf8_emit :: "utf8_state \<Rightarrow> 32 word \<Rightarrow> jsstring \<times> utf8_state" where
  "utf8_emit d cp =
     (if \<not> bom_seen d \<and> cp = 0xFEFF then ([], d\<lparr>bom_seen := True\<rparr>)
      else (utf16_encode cp, d\<lparr>bom_seen := True\<rparr>))"

definition utf8_reset :: "utf8_state \<Rightarrow> utf8_state" where
  "utf8_reset d = d\<lparr>code_point := 0, bytes_seen := 0, bytes_needed := 0,
                    lower_boundary := 0x80, upper_boundary := 0xBF\<rparr>"

definition utf8_lead :: "utf8_state \<Rightarrow> byte \<Rightarrow> jsstring \<times> utf8_state" where
  "utf8_lead d b =
     (if b \<le> 0x7F then utf8_emit d (ucast b)
      else if 0xC2 \<le> b \<and> b \<le> 0xDF then
        ([], d\<lparr>bytes_needed := 1, code_point := ucast (and b 0x1F)\<rparr>)
      else if 0xE0 \<le> b \<and> b \<le> 0xEF then
        ([], d\<lparr>lower_boundary := (if b = 0xE0 then 0xA0 else lower_boundary d),
                upper_boundary := (if b = 0xED then 0x9F else upper_boundary d),
                bytes_needed := 2, code_point := ucast (and b 0xF)\<rparr>)
      else if 0xF0 \<le> b \<and> b \<le> 0xF4 then
        ([], d\<lparr>lower_boundary := (if b = 0xF0 then 0x90 else lower_boundary d),
                upper_boundary := (if b = 0xF4 then 0x8F else upper_boundary d),
                bytes_needed := 3, code_point := ucast (and b 0x7)\<rparr>)
      else utf8_emit d 0xFFFD)"

definition utf8_feed :: "utf8_state \<Rightarrow> byte \<Rightarrow> jsstring \<times> utf8_state" where
  "utf8_feed d b =
     (if bytes_needed d = 0 then utf8_lead d b
      else if \<not> (lower_boundary d \<le> b \<and> b \<le> upper_boundary d) then
        (case utf8_emit (utf8_reset d) 0xFFFD of (t, d1) \<Rightarrow>
           (case utf8_lead d1 b of (t', d2) \<Rightarrow> (t @ t', d2)))
      else
        (let d1 = d\<lparr>lower_boundary := 0x80, upper_boundary := 0xBF,
                     code_point := or (push_bit 6 (code_point d)) (ucast (and b 0x3F)),
                     bytes_seen := bytes_seen d + 1\<rparr>
         in if bytes_seen d1 \<noteq> bytes_needed d1 then ([], d1)
            else utf8_emit (utf8_reset d1) (code_point d1)))"

definition utf8_decoder :: "utf8_state text_decoder" where
  "utf8_decoder = \<lparr>initial = utf8_initial, feed = utf8_feed\<rparr>"

text \<open>The bytes of an ASCII text.\<close>

definition ascii_bytes :: "string \<Rightarrow> byte list" where
  "ascii_bytes s = map of_char s"

text \<open>
  A request that asks for thinking, on a caller state that counts the requests the
  transport has received; and transports: a backend whose model does not support thinking
  (it answers 400 with the error in the field \<open>error\<close> of a JSON body when \<open>think\<close> is set,
  and the reply otherwise), one that knows no such model, one that answers 400 with the
  message as plain text, one that answers 400 with an \<open>error\<close> that is an object with
  a property \<open>toString\<close>, two that answer 200 with a body without content, and two that
  answer 200 with a body that is not JSON.
\<close>

definition example_config :: "nat config" where
  "example_config =
     \<lparr>onContent = (\<lambda>s w. (None, w)), onThinking = (\<lambda>s w. (None, w)),
      onDone = (\<lambda>w. (None, w)),
      model = js ''llama3'',
      messages = [\<lparr>role = js ''user'', content = Text (js ''hi''), images = None\<rparr>],
      temperature = JNum (Finite (7 / 10)), maxTokens = JNum (Finite 256),
      think = True, stream = False\<rparr>"

definition no_body :: stream_body where
  "no_body = \<lparr>chunks = [], failure = None\<rparr>"

definition ollama_without_thinking :: "(ollama_payload, nat) transport" where
  \<open>ollama_without_thinking payload w =
     (if o_think payload then
        (Inr \<lparr>resp_ok = False, resp_status = 400,
              resp_text = js ''{"error":"model does not support thinking"}'',
              resp_body = no_body\<rparr>, Suc w)
      else if o_stream payload then
        (Inr \<lparr>resp_ok = True, resp_status = 200, resp_text = [],
              resp_body = \<lparr>chunks = [ascii_bytes ''{"message":{"content":"a"}}'' @ [0x0A],
                                     ascii_bytes ''{"done":true}'' @ [0x0A]],
                           failure = None\<rparr>\<rparr>, Suc w)
      else
        (Inr \<lparr>resp_ok = True, resp_status = 200,
              resp_text = js ''{"message":{"content":"hello"}}'', resp_body = no_body\<rparr>, Suc w))\<close>

definition ollama_model_not_found :: "(ollama_payload, nat) transport" where
  \<open>ollama_model_not_found payload w =
     (Inr \<lparr>resp_ok = False, resp_status = 404, resp_text = js ''{"error":"model not found"}'',
           resp_body = no_body\<rparr>, Suc w)\<close>

definition ollama_plain_text_error :: "(ollama_payload, nat) transport" where
  "ollama_plain_text_error payload w =
     (Inr \<lparr>resp_ok = False, resp_status = 400, resp_text = js ''model does not support thinking'',
           resp_body = no_body\<rparr>, Suc w)"

definition ollama_unconvertible_error :: "(ollama_payload, nat) transport" where
  \<open>ollama_unconvertible_error payload w =
     (Inr \<lparr>resp_ok = False, resp_status = 400, resp_text = js ''{"error":{"toString":0}}'',
           resp_body = no_body\<rparr>, Suc w)\<close>

definition ollama_plain_ok :: "(ollama_payload, nat) transport" where
  "ollama_plain_ok payload w =
     (Inr \<lparr>resp_ok = True, resp_status = 200, resp_text = js ''OK'', resp_body = no_body\<rparr>,
      Suc w)"

definition openai_plain_ok :: "(openai_payload, nat) transport" where
  "openai_plain_ok payload w =
     (Inr \<lparr>resp_ok = True, resp_status = 200, resp_text = js ''OK'', resp_body = no_body\<rparr>,
      Suc w)"

definition ollama_empty_message :: "(ollama_payload, nat) transport" where
  \<open>ollama_empty_message payload w =
     (Inr \<lparr>resp_ok = True, resp_status = 200, resp_text = js ''{"message":{}}'',
           resp_body = no_body\<rparr>, Suc w)\<close>

definition openai_no_choices :: "(openai_payload, nat) transport" where
  \<open>openai_no_choices payload w =
     (Inr \<lparr>resp_ok = True, resp_status = 200, resp_text = js ''{"choices":[]}'',
           resp_body = no_body\<rparr>, Suc w)\<close>

text \<open>The three NDJSON lines of the end-to-end scenario of the specification.\<close>

definition scenario_text :: jsstring where
  \<open>scenario_text =
     js ''{"message":{"content":"a"}}'' @ [newline] @
     js ''{"message":{"content":"b"}}'' @ [newline] @
     js ''{"done":true}'' @ [newline]\<close>

text \<open>
  Callbacks that return normally and leave the caller's state alone, and callbacks on a
  state that counts the calls of \<open>onDone\<close>, whose \<open>onDone\<close> throws when it is called the
  first time.
\<close>

definition quiet_callbacks :: "'w callbacks" where
  "quiet_callbacks =
     \<lparr>onContent = (\<lambda>s w. (None, w)), onThinking = (\<lambda>s w. (None, w)),
      onDone = (\<lambda>w. (None, w))\<rparr>"

definition failing_onDone_callbacks :: "nat callbacks" where
  "failing_onDone_callbacks =
     \<lparr>onContent = (\<lambda>s w. (None, w)), onThinking = (\<lambda>s w. (None, w)),
      onDone = (\<lambda>w. (if w = 0 then Some (JsError ''Error'') else None, Suc w))\<rparr>"

section \<open>Strings: facts the proofs below use\<close>

lemma js_space: "js '' '' = [0x20]"
  by (simp add: js_def)

lemma space_is_whitespace: "is_js_whitespace 0x20"
  by (simp add: is_js_whitespace_def)

lemma trim_append_space: "trim (xs @ [0x20]) = trim xs"
proof (cases "\<forall>c \<in> set xs. is_js_whitespace c")
  case True
  then have a: "dropWhile is_js_whitespace xs = []"
    by (simp add: dropWhile_eq_Nil_conv)
  have b: "dropWhile is_js_whitespace (xs @ [0x20]) = dropWhile is_js_whitespace [0x20]"
    by (rule dropWhile_append2) (use True in auto)
  have c: "dropWhile is_js_whitespace [0x20] = []"
    using space_is_whitespace by simp
  show ?thesis unfolding trim_def a b c by simp
next
  case False
  then have "dropWhile is_js_whitespace (xs @ [0x20]) = dropWhile is_js_whitespace xs @ [0x20]"
    by (auto simp: dropWhile_append1)
  then show ?thesis using space_is_whitespace by (simp add: trim_def)
qed

lemma split_on_nonempty: "split_on sep s \<noteq> []"
  by (induction s) (auto split: list.splits)

lemma split_on_append:
  "split_on sep (a @ b) = butlast (split_on sep a) @ split_on sep (last (split_on sep a) @ b)"
proof (induction a)
  case Nil
  then show ?case by simp
next
  case (Cons c a)
  show ?case
  proof (cases "c = sep")
    case True
    then show ?thesis using Cons split_on_nonempty[of sep a] by simp
  next
    case False
    obtain l ls where s: "split_on sep a = l # ls"
      using split_on_nonempty[of sep a] by (cases "split_on sep a") auto
    show ?thesis
    proof (cases ls)
      case Nil
      then show ?thesis using False s Cons by (simp split: list.splits)
    next
      case (Cons l' ls')
      then show ?thesis using False s Cons.IH split_on_nonempty[of sep "a @ b"]
        by (cases "split_on sep (a @ b)") (auto split: list.splits)
    qed
  qed
qed

lemma indexOf_absent: "c \<notin> set s \<Longrightarrow> indexOf s c = -1"
  by (induction s) (auto simp: Let_def)

lemma indexOf_first: "c \<notin> set p \<Longrightarrow> indexOf (p @ c # r) c = int (length p)"
  by (induction p) (auto simp: Let_def)

lemma drop_past_separator: "drop (nat (int (length p) + 1)) (p @ c # r) = r"
proof -
  have "nat (int (length p) + 1) = Suc (length p)" by simp
  then show ?thesis by simp
qed

section \<open>The Message/Image Adapter\<close>

lemma concat_space_joined:
  "ts \<noteq> [] \<Longrightarrow> concat (map (\<lambda>t. t @ js '' '') ts) = space_joined ts @ js '' ''"
  by (induction ts rule: space_joined.induct) auto

lemma trim_concat_space_joined:
  "trim (concat (map (\<lambda>t. t @ js '' '') ts)) = trim (space_joined ts)"
proof (cases ts)
  case Nil
  then show ?thesis by simp
next
  case (Cons t ts')
  then have "ts \<noteq> []" by simp
  then have "concat (map (\<lambda>t. t @ js '' '') ts) = space_joined ts @ [0x20]"
    using concat_space_joined[of ts] by (simp add: js_space)
  then show ?thesis
    by (simp only: trim_append_space)
qed

lemma for_parts_eq:
  "for_parts parts (textContent, imgs) =
     (textContent @ concat (map (\<lambda>t. t @ js '' '') (text_parts parts)),
      imgs @ map base64_payload (filter (\<lambda>u. u \<noteq> []) (image_urls parts)))"
  by (induction parts "(textContent, imgs)" arbitrary: textContent imgs rule: for_parts.induct)
     (auto simp: base64_payload_def Let_def)

lemma for_messages_eq:
  "for_messages msgs processed = processed @ map (adapt (\<lambda>u. u \<noteq> [])) msgs"
proof (induction msgs arbitrary: processed)
  case Nil
  then show ?case by simp
next
  case (Cons msg rest)
  show ?case
  proof (cases "content msg")
    case (Text t)
    then show ?thesis using Cons by (simp add: adapt_def)
  next
    case (Parts parts)
    then show ?thesis
      using Cons for_parts_eq[of parts "[]" "[]"] trim_concat_space_joined[of "text_parts parts"]
      by (simp add: adapt_def Let_def)
  qed
qed

lemma base64_payload_raw: "comma \<notin> set url \<Longrightarrow> base64_payload url = url"
  by (simp add: base64_payload_def indexOf_absent substring_def)

lemma comma_notin_literals:
  "comma \<notin> set (js ''data:'')" "comma \<notin> set (js '';base64'')"
  "js '';base64,'' = js '';base64'' @ [comma]"
  by (simp_all add: js_def comma_def)

lemma base64_payload_data_url:
  assumes "comma \<notin> set mime"
  shows "base64_payload (js ''data:'' @ mime @ js '';base64,'' @ payload) = payload"
proof -
  let ?p = "js ''data:'' @ mime @ js '';base64''"
  have p: "comma \<notin> set ?p" using assms comma_notin_literals by simp
  have e: "js ''data:'' @ mime @ js '';base64,'' @ payload = ?p @ comma # payload"
    by (simp add: comma_notin_literals(3))
  show ?thesis
    unfolding e base64_payload_def substring_def indexOf_first[OF p, of payload]
    by (rule drop_past_separator)
qed

text \<open>
  Claim C4, as the code has it. The adapter maps each message on its own. A user message
  whose content is an array of parts becomes the message with role \<open>user\<close>, with the
  trimmed, space-joined text of its text parts as content, and with the payloads of its
  image parts whose URL is not empty as image list, the key \<open>images\<close> being left out when
  that list is empty; every other message is passed on unchanged. The payload of a URL
  \<open>data:<mime>;base64,<payload>\<close> is \<open><payload>\<close>, and a URL without a comma (raw base64)
  is its own payload.
\<close>

theorem adapter_converts_user_parts:
  "processMessagesForOllama msgs = map (adapt (\<lambda>url. url \<noteq> [])) msgs \<and>
   (comma \<notin> set mime \<longrightarrow>
      base64_payload (js ''data:'' @ mime @ js '';base64,'' @ payload) = payload) \<and>
   (comma \<notin> set url \<longrightarrow> base64_payload url = url)"
  using for_messages_eq[of msgs "[]"] base64_payload_data_url[of mime payload]
    base64_payload_raw[of url]
  by (simp add: processMessagesForOllama_def)

text \<open>
  An instance: two text parts and an image part, an assistant message, and a user message
  with text parts only.
\<close>

theorem adapter_converts_user_parts_witness:
  "processMessagesForOllama
     [\<lparr>role = js ''user'',
       content = Parts [TextPart (js ''hello''),
                        ImageUrlPart (js ''data:image/png;base64,iVBOR''),
                        TextPart (js ''world'')],
       images = None\<rparr>,
      \<lparr>role = js ''assistant'', content = Text (js ''hi''), images = None\<rparr>,
      \<lparr>role = js ''user'', content = Parts [TextPart (js ''no image'')], images = None\<rparr>]
   = [\<lparr>role = js ''user'', content = Text (js ''hello world''),
       images = Some [js ''iVBOR'']\<rparr>,
      \<lparr>role = js ''assistant'', content = Text (js ''hi''), images = None\<rparr>,
      \<lparr>role = js ''user'', content = Text (js ''no image''), images = None\<rparr>] \<and>
   comma \<notin> set (js ''image/png'') \<and>
   base64_payload (js ''data:'' @ js ''image/png'' @ js '';base64,'' @ js ''iVBOR'') = js ''iVBOR'' \<and>
   comma \<notin> set (js ''iVBOR'') \<and> base64_payload (js ''iVBOR'') = js ''iVBOR''"
  using adapter_converts_user_parts[of
      "[\<lparr>role = js ''user'',
         content = Parts [TextPart (js ''hello''),
                          ImageUrlPart (js ''data:image/png;base64,iVBOR''),
                          TextPart (js ''world'')],
         images = None\<rparr>,
        \<lparr>role = js ''assistant'', content = Text (js ''hi''), images = None\<rparr>,
        \<lparr>role = js ''user'', content = Parts [TextPart (js ''no image'')], images = None\<rparr>]"
      "js ''image/png''" "js ''iVBOR''" "js ''iVBOR''"]
  by (simp add: adapt_def base64_payload_def js_def trim_def is_js_whitespace_def comma_def
        substring_def Let_def)

text \<open>
  Claim C4 as it is stated, with every image part counting, fails on a user message whose
  only part is an image part with the empty URL: the code skips that part (the guard
  \<open>part.image_url.url\<close>) and emits a message without the key \<open>images\<close>, where the claim
  has the image list hold the payload of the part.
\<close>

theorem adapter_empty_url_counterexample:
  "processMessagesForOllama
     [\<lparr>role = js ''user'', content = Parts [ImageUrlPart []], images = None\<rparr>]
   = [\<lparr>role = js ''user'', content = Text [], images = None\<rparr>] \<and>
   processMessagesForOllama
     [\<lparr>role = js ''user'', content = Parts [ImageUrlPart []], images = None\<rparr>]
   \<noteq> map (adapt (\<lambda>url. True))
       [\<lparr>role = js ''user'', content = Parts [ImageUrlPart []], images = None\<rparr>]"
  by (simp add: processMessagesForOllama_def adapt_def base64_payload_def substring_def
        trim_def Let_def)

section \<open>The stream line parsers\<close>

lemma member_not_nullish: "\<not> nullish v \<Longrightarrow> member v k = Inr (opt_member v k)"
  by (cases v) (auto simp: nullish_def opt_member_def)

lemma member_coalesce: "member (nullish_coalesce v (JObj [])) k = Inr (opt_member v k)"
  by (cases v) (auto simp: nullish_coalesce_def nullish_def opt_member_def)

lemma opt_member_step:
  "opt_member v k = (case step_into v (Key k) of Some x \<Rightarrow> x | None \<Rightarrow> JUndefined)"
  by (cases v) (auto simp: opt_member_def nullish_def)

lemma opt_index0_step:
  "opt_index0 v = (case step_into v Index0 of Some x \<Rightarrow> x | None \<Rightarrow> JUndefined)"
  by (cases v) (auto simp: opt_index0_def nullish_def split: list.splits)

lemma path_lookup_snoc:
  "path_lookup v (ps @ [p]) =
     (case path_lookup v ps of None \<Rightarrow> None | Some x \<Rightarrow> step_into x p)"
  by (induction ps arbitrary: v) (auto split: option.splits)

lemma read_key:
  "or_undefined (case r of None \<Rightarrow> None | Some x \<Rightarrow> step_into x (Key k)) =
   opt_member (or_undefined r) k"
  by (cases r) (simp_all add: opt_member_step opt_member_def nullish_def split: option.splits)

lemma read_index0:
  "or_undefined (case r of None \<Rightarrow> None | Some x \<Rightarrow> step_into x Index0) =
   opt_index0 (or_undefined r)"
  by (cases r) (simp_all add: opt_index0_step opt_index0_def nullish_def split: option.splits)

text \<open>The optional chains of the code read the paths of the specification.\<close>

lemma cloud_delta_chain:
  "opt_member (opt_member (opt_index0 (opt_member obj (js ''choices''))) (js ''delta''))
     (js ''content'')
   = or_undefined (path_lookup obj cloud_delta_path)"
proof -
  have h: "cloud_delta_path =
      ((([] @ [Key (js ''choices'')]) @ [Index0]) @ [Key (js ''delta'')]) @ [Key (js ''content'')]"
    by (simp add: cloud_delta_path_def)
  show ?thesis
    unfolding h path_lookup_snoc read_key read_index0 by simp
qed

lemma cloud_bulk_chain:
  "opt_member (opt_member (opt_index0 (opt_member data (js ''choices''))) (js ''message''))
     (js ''content'')
   = or_undefined (path_lookup data cloud_bulk_path)"
proof -
  have h: "cloud_bulk_path =
      ((([] @ [Key (js ''choices'')]) @ [Index0]) @ [Key (js ''message'')]) @ [Key (js ''content'')]"
    by (simp add: cloud_bulk_path_def)
  show ?thesis
    unfolding h path_lookup_snoc read_key read_index0 by simp
qed

lemma selfhosted_bulk_chain:
  "opt_member (opt_member data (js ''message'')) (js ''content'')
   = or_undefined (path_lookup data selfhosted_bulk_path)"
proof -
  have h: "selfhosted_bulk_path = ([] @ [Key (js ''message'')]) @ [Key (js ''content'')]"
    by (simp add: selfhosted_bulk_path_def)
  show ?thesis
    unfolding h path_lookup_snoc read_key read_index0 by simp
qed

text \<open>The cloud parser on a line with the prefix that is not the sentinel.\<close>

lemma OpenAI_parse_payload:
  assumes "line \<noteq> js ''data: [DONE]''" "startsWith line (js ''data: '')"
  shows "OpenAI_parseStreamLine P line =
     (case P (substring line (int (length (js ''data: '')))) of
        None \<Rightarrow> Inr (JObj [])
      | Some obj \<Rightarrow>
          if nullish obj then Inr (JObj [])
          else Inr (JObj [(js ''content'', or_undefined (path_lookup obj cloud_delta_path))]))"
proof (cases "P (substring line (int (length (js ''data: ''))))")
  case None
  then show ?thesis using assms
    by (simp add: OpenAI_parseStreamLine_def parse_or_throw_def bind_exn_def try_catch_def)
next
  case (Some obj)
  show ?thesis
  proof (cases "nullish obj")
    case True
    then have "member obj (js ''choices'') = Inl (JsError ''TypeError'')"
      by (auto simp: nullish_def)
    then show ?thesis using assms Some True
      by (simp add: OpenAI_parseStreamLine_def parse_or_throw_def bind_exn_def try_catch_def)
  next
    case False
    then show ?thesis using assms Some cloud_delta_chain[of obj, symmetric]
      by (simp add: OpenAI_parseStreamLine_def parse_or_throw_def bind_exn_def try_catch_def
            member_not_nullish member_coalesce Let_def)
  qed
qed

lemma SelfHosted_parse_cases:
  "SelfHosted_parseStreamLine P line =
     (case P line of
        None \<Rightarrow> Inr (JObj [])
      | Some obj \<Rightarrow>
          if nullish obj then Inr (JObj [])
          else if opt_member obj (js ''done'') = JBool True then
            Inr (JObj [(js ''isDone'', JBool True),
                       (js ''reason'', JStr (js ''self-hosted DONE''))])
          else
            Inr (JObj [(js ''content'',
                          opt_member (opt_member obj (js ''message'')) (js ''content'')),
                       (js ''thinking'',
                          opt_member (opt_member obj (js ''message'')) (js ''thinking''))]))"
proof (cases "P line")
  case None
  then show ?thesis
    by (simp add: SelfHosted_parseStreamLine_def parse_or_throw_def bind_exn_def try_catch_def)
next
  case (Some obj)
  show ?thesis
  proof (cases "nullish obj")
    case True
    then have "member obj (js ''done'') = Inl (JsError ''TypeError'')"
      by (auto simp: nullish_def)
    then show ?thesis using Some True
      by (simp add: SelfHosted_parseStreamLine_def parse_or_throw_def bind_exn_def try_catch_def)
  next
    case False
    then show ?thesis using Some
      by (simp add: SelfHosted_parseStreamLine_def parse_or_throw_def bind_exn_def try_catch_def
            member_not_nullish member_coalesce Let_def)
  qed
qed

lemma property_names_differ:
  "js ''content'' \<noteq> js ''isDone''" "js ''content'' \<noteq> js ''thinking''"
  "js ''isDone'' \<noteq> js ''content''" "js ''thinking'' \<noteq> js ''content''"
  "js ''isDone'' \<noteq> js ''thinking''" "js ''thinking'' \<noteq> js ''isDone''"
  "js ''reason'' \<noteq> js ''isDone''" "js ''reason'' \<noteq> js ''content''"
  "js ''reason'' \<noteq> js ''thinking''" "js ''isDone'' \<noteq> js ''reason''"
  "js ''thinking'' \<noteq> js ''reason''" "js ''content'' \<noteq> js ''reason''"
  by (simp_all add: js_def)

lemma sentinel_has_prefix: "startsWith (js ''data: [DONE]'') (js ''data: '')"
  by (simp add: startsWith_def js_def)

lemma OpenAI_parse_total: "\<exists>r. OpenAI_parseStreamLine P line = Inr r"
proof (cases "line = js ''data: [DONE]''")
  case True
  then show ?thesis by (simp add: OpenAI_parseStreamLine_def)
next
  case False
  show ?thesis
  proof (cases "startsWith line (js ''data: '')")
    case True
    then show ?thesis using False by (simp add: OpenAI_parse_payload split: option.splits)
  next
    case no_prefix: False
    then show ?thesis using False by (simp add: OpenAI_parseStreamLine_def)
  qed
qed

lemma SelfHosted_parse_total: "\<exists>r. SelfHosted_parseStreamLine P line = Inr r"
  by (simp add: SelfHosted_parse_cases split: option.splits)

lemma OpenAI_no_thinking:
  assumes "OpenAI_parseStreamLine P line = Inr r"
  shows "member r (js ''thinking'') = Inr JUndefined"
proof (cases "line = js ''data: [DONE]''")
  case True
  then show ?thesis using assms by (auto simp: OpenAI_parseStreamLine_def property_names_differ)
next
  case False
  show ?thesis
  proof (cases "startsWith line (js ''data: '')")
    case True
    then show ?thesis using False assms
      by (auto simp: OpenAI_parse_payload property_names_differ split: option.splits if_splits)
  next
    case no_prefix: False
    then show ?thesis using False assms by (auto simp: OpenAI_parseStreamLine_def)
  qed
qed

text \<open>
  Claim C5, as the code has it. On every line and whatever \<open>JSON.parse\<close> does, both
  parsers return and do not throw. The self-hosted parser returns \<open>{}\<close> on a line that
  \<open>JSON.parse\<close> rejects. The cloud parser returns \<open>{}\<close> on a line other than the sentinel
  \<open>data: [DONE]\<close> that lacks the prefix \<open>data: \<close>, or whose text after the prefix
  \<open>JSON.parse\<close> rejects.
\<close>

theorem parseStreamLine_returns_and_empty_on_bad_json:
  "(\<exists>r. OpenAI_parseStreamLine JSON_parse line = Inr r) \<and>
   (\<exists>r. SelfHosted_parseStreamLine JSON_parse line = Inr r) \<and>
   (JSON_parse line = None \<longrightarrow> SelfHosted_parseStreamLine JSON_parse line = Inr (JObj [])) \<and>
   (line \<noteq> js ''data: [DONE]'' \<and>
    (\<not> startsWith line (js ''data: '') \<or>
     JSON_parse (substring line (int (length (js ''data: '')))) = None) \<longrightarrow>
      OpenAI_parseStreamLine JSON_parse line = Inr (JObj []))"
proof -
  have "OpenAI_parseStreamLine JSON_parse line = Inr (JObj [])"
    if "line \<noteq> js ''data: [DONE]''"
      and "\<not> startsWith line (js ''data: '') \<or>
           JSON_parse (substring line (int (length (js ''data: '')))) = None"
  proof (cases "startsWith line (js ''data: '')")
    case True
    then show ?thesis using that by (simp add: OpenAI_parse_payload)
  next
    case False
    then show ?thesis using that by (simp add: OpenAI_parseStreamLine_def)
  qed
  then show ?thesis
    using OpenAI_parse_total[of JSON_parse line] SelfHosted_parse_total[of JSON_parse line]
    by (simp add: SelfHosted_parse_cases)
qed

theorem parseStreamLine_returns_and_empty_on_bad_json_witness:
  \<open>example_JSON_parse (js ''data: {"choi'') = None \<and>
   SelfHosted_parseStreamLine example_JSON_parse (js ''data: {"choi'') = Inr (JObj []) \<and>
   js ''data: {"choi'' \<noteq> js ''data: [DONE]'' \<and>
   example_JSON_parse (substring (js ''data: {"choi'') (int (length (js ''data: '')))) = None \<and>
   OpenAI_parseStreamLine example_JSON_parse (js ''data: {"choi'') = Inr (JObj [])\<close>
  using parseStreamLine_returns_and_empty_on_bad_json[of example_JSON_parse
      \<open>js ''data: {"choi''\<close>]
  by (simp add: example_JSON_parse_def example_JSON_texts_def js_def substring_def)

text \<open>
  Claim C5 as it is stated fails for the cloud parser on the sentinel: the line
  \<open>data: [DONE]\<close> is not parseable as JSON, and neither is its text after the prefix, yet
  the parser returns the done increment for it, not \<open>{}\<close>.
\<close>

theorem cloud_sentinel_is_not_json_counterexample:
  "example_JSON_parse (js ''data: [DONE]'') = None \<and>
   example_JSON_parse (substring (js ''data: [DONE]'') (int (length (js ''data: '')))) = None \<and>
   OpenAI_parseStreamLine example_JSON_parse (js ''data: [DONE]'') \<noteq> Inr (JObj []) \<and>
   OpenAI_parseStreamLine example_JSON_parse (js ''data: [DONE]'') =
     Inr (JObj [(js ''isDone'', JBool True), (js ''reason'', JStr (js ''DONE sentinel''))])"
  by (simp add: OpenAI_parseStreamLine_def example_JSON_parse_def example_JSON_texts_def
        js_def substring_def)

text \<open>
  Claim C6. The cloud parser returns an increment with \<open>isDone\<close> true on the line
  \<open>data: [DONE]\<close>, and the self-hosted parser does on every line whose JSON value has
  \<open>done\<close> equal to \<open>true\<close> at top level.
\<close>

theorem done_lines_yield_isDone:
  "(\<exists>r. OpenAI_parseStreamLine JSON_parse (js ''data: [DONE]'') = Inr r \<and>
        member r (js ''isDone'') = Inr (JBool True) \<and> is_done r) \<and>
   (JSON_parse line = Some obj \<and> member obj (js ''done'') = Inr (JBool True) \<longrightarrow>
      (\<exists>r. SelfHosted_parseStreamLine JSON_parse line = Inr r \<and>
           member r (js ''isDone'') = Inr (JBool True) \<and> is_done r))"
proof -
  have "\<not> nullish obj \<and> opt_member obj (js ''done'') = JBool True"
    if "member obj (js ''done'') = Inr (JBool True)"
    using that by (cases obj) (auto simp: nullish_def opt_member_def)
  then show ?thesis
    by (auto simp: OpenAI_parseStreamLine_def SelfHosted_parse_cases is_done_def)
qed

theorem done_lines_yield_isDone_witness:
  \<open>example_JSON_parse (js ''{"done":true}'') = Some (JObj [(js ''done'', JBool True)]) \<and>
   member (JObj [(js ''done'', JBool True)]) (js ''done'') = Inr (JBool True) \<and>
   (\<exists>r. SelfHosted_parseStreamLine example_JSON_parse (js ''{"done":true}'') = Inr r \<and>
        member r (js ''isDone'') = Inr (JBool True) \<and> is_done r) \<and>
   (\<exists>r. OpenAI_parseStreamLine example_JSON_parse (js ''data: [DONE]'') = Inr r \<and>
        member r (js ''isDone'') = Inr (JBool True) \<and> is_done r)\<close>
  using done_lines_yield_isDone[of example_JSON_parse \<open>js ''{"done":true}''\<close>
      "JObj [(js ''done'', JBool True)]"]
  by (simp add: example_JSON_parse_def example_JSON_texts_def js_def)

text \<open>
  Claim C7. On a line that does not start with \<open>data: \<close> the cloud parser returns \<open>{}\<close>.
  On a line \<open>data: <payload>\<close> other than the sentinel, whose payload is JSON that lacks
  the path \<open>choices[0].delta.content\<close>, it returns an increment whose \<open>content\<close> and
  \<open>isDone\<close> are both \<open>undefined\<close>: no content, not done.
\<close>

theorem cloud_parser_empty_increments:
  "(\<not> startsWith line (js ''data: '') \<longrightarrow>
      OpenAI_parseStreamLine JSON_parse line = Inr (JObj [])) \<and>
   (payload \<noteq> js ''[DONE]'' \<and> JSON_parse payload = Some obj \<and>
    path_lookup obj cloud_delta_path = None \<longrightarrow>
      (\<exists>r. OpenAI_parseStreamLine JSON_parse (js ''data: '' @ payload) = Inr r \<and>
           member r (js ''content'') = Inr JUndefined \<and>
           member r (js ''isDone'') = Inr JUndefined \<and>
           content_of r = None \<and> \<not> is_done r))"
proof -
  have 1: "OpenAI_parseStreamLine JSON_parse line = Inr (JObj [])"
    if "\<not> startsWith line (js ''data: '')"
  proof -
    have "line \<noteq> js ''data: [DONE]''" using that sentinel_has_prefix by auto
    then show ?thesis using that by (simp add: OpenAI_parseStreamLine_def)
  qed
  have 2: "\<exists>r. OpenAI_parseStreamLine JSON_parse (js ''data: '' @ payload) = Inr r \<and>
           member r (js ''content'') = Inr JUndefined \<and>
           member r (js ''isDone'') = Inr JUndefined \<and>
           content_of r = None \<and> \<not> is_done r"
    if "payload \<noteq> js ''[DONE]''" "JSON_parse payload = Some obj"
      "path_lookup obj cloud_delta_path = None"
  proof -
    have a: "js ''data: '' @ payload \<noteq> js ''data: [DONE]''"
      using that(1) by (simp add: js_def)
    have b: "startsWith (js ''data: '' @ payload) (js ''data: '')"
      by (simp add: startsWith_def)
    have c: "substring (js ''data: '' @ payload) (int (length (js ''data: ''))) = payload"
      by (simp add: substring_def)
    show ?thesis
      using that(2,3)
      by (simp add: OpenAI_parse_payload[OF a b] c property_names_differ content_of_def
            is_done_def)
  qed
  show ?thesis using 1 2 by blast
qed

theorem cloud_parser_empty_increments_witness:
  \<open>\<not> startsWith (js ''event: ping'') (js ''data: '') \<and>
   OpenAI_parseStreamLine example_JSON_parse (js ''event: ping'') = Inr (JObj []) \<and>
   js ''{"choices":[{"delta":{}}]}'' \<noteq> js ''[DONE]'' \<and>
   example_JSON_parse (js ''{"choices":[{"delta":{}}]}'') =
     Some (JObj [(js ''choices'', JArr [JObj [(js ''delta'', JObj [])]])]) \<and>
   path_lookup (JObj [(js ''choices'', JArr [JObj [(js ''delta'', JObj [])]])]) cloud_delta_path
     = None \<and>
   (\<exists>r. OpenAI_parseStreamLine example_JSON_parse
          (js ''data: '' @ js ''{"choices":[{"delta":{}}]}'') = Inr r \<and>
        member r (js ''content'') = Inr JUndefined \<and>
        member r (js ''isDone'') = Inr JUndefined \<and>
        content_of r = None \<and> \<not> is_done r)\<close>
  using cloud_parser_empty_increments[of \<open>js ''event: ping''\<close> example_JSON_parse
      \<open>js ''{"choices":[{"delta":{}}]}''\<close>
      "JObj [(js ''choices'', JArr [JObj [(js ''delta'', JObj [])]])]"]
  by (simp add: example_JSON_parse_def example_JSON_texts_def js_def startsWith_def
        cloud_delta_path_def)

section \<open>The stream reducer\<close>

lemma call_onContent_log:
  "call_onContent cbs s st = (r, st') \<Longrightarrow> fst st' = fst st @ [OnContent s]"
  by (auto simp: call_onContent_def split: prod.splits)

lemma call_onThinking_log:
  "call_onThinking cbs s st = (r, st') \<Longrightarrow> fst st' = fst st @ [OnThinking s]"
  by (auto simp: call_onThinking_def split: prod.splits)

lemma call_onDone_log:
  "call_onDone cbs st = (r, st') \<Longrightarrow> fst st' = fst st @ [OnDone]"
  by (auto simp: call_onDone_def split: prod.splits)

lemma call_onDone_returns:
  "(\<And>w. fst (onDone cbs w) = None) \<Longrightarrow> call_onDone cbs st = (r, st') \<Longrightarrow> r = None"
  by (auto simp: call_onDone_def split: prod.splits) (metis fst_conv)

text \<open>What \<open>emit\<close> adds to the log.\<close>

lemma emit_log:
  assumes "emit cbs result st = (c, st')"
  shows "\<exists>new. fst st' = fst st @ new \<and> set new \<subseteq> {OnContent s | s. content_of result = Some s} \<union> {OnThinking s | s. thinking_of result = Some s}
           \<and> c \<noteq> Returned"
  using assms
  unfolding emit_def content_of_def thinking_of_def
  by (auto split: sum.splits jsval.splits prod.splits option.splits
        dest!: call_onContent_log call_onThinking_log)


subsection \<open>No parsed thinking, no call of \<open>onThinking\<close>\<close>

lemma emit_no_thinking:
  assumes "emit cbs result st = (c, st')" "thinking_of result = None"
    "\<forall>s. OnThinking s \<notin> set (fst st)"
  shows "\<forall>s. OnThinking s \<notin> set (fst st')"
  using emit_log[OF assms(1)] assms(2,3) by auto

lemma process_lines_no_thinking:
  assumes "\<And>line r. p line = Inr r \<Longrightarrow> thinking_of r = None"
  shows "process_lines p cbs lines st = (c, st') \<Longrightarrow> \<forall>s. OnThinking s \<notin> set (fst st)
     \<Longrightarrow> \<forall>s. OnThinking s \<notin> set (fst st')"
proof (induction lines arbitrary: st)
  case Nil
  then show ?case by simp
next
  case (Cons raw rest)
  show ?case
  proof (cases "trim raw = []")
    case True
    then show ?thesis using Cons by simp
  next
    case False
    show ?thesis
    proof (cases "p (trim raw)")
      case (Inl e)
      then show ?thesis using Cons.prems False by simp
    next
      case (Inr result)
      note nt = assms[OF Inr]
      show ?thesis
      proof (cases "member result (js ''isDone'')")
        case (Inl e)
        then show ?thesis using Cons.prems False Inr by simp
      next
        case isDone: (Inr v)
        show ?thesis
        proof (cases "truthy v")
          case True
          then show ?thesis using Cons.prems False Inr isDone
            by (auto split: prod.splits option.splits dest!: call_onDone_log)
        next
          case F: False
          obtain c1 st1 where e: "emit cbs result st = (c1, st1)" by (cases "emit cbs result st")
          have st1: "\<forall>s. OnThinking s \<notin> set (fst st1)"
            using emit_no_thinking[OF e nt Cons.prems(2)] .
          show ?thesis
          proof (cases c1)
            case (Normal u)
            then show ?thesis using Cons.prems(1) False Inr isDone F e Cons.IH[OF _ st1] by simp
          next
            case Returned
            then show ?thesis using Cons.prems(1) False Inr isDone F e st1 by simp
          next
            case (Thrown x)
            then show ?thesis using Cons.prems(1) False Inr isDone F e st1 by simp
          qed
        qed
      qed
    qed
  qed
qed

lemma flush_leftover_no_thinking:
  assumes "\<And>line r. p line = Inr r \<Longrightarrow> thinking_of r = None"
    "flush_leftover p cbs leftover st = (c, st')" "\<forall>s. OnThinking s \<notin> set (fst st)"
  shows "\<forall>s. OnThinking s \<notin> set (fst st')"
proof (cases "trim leftover \<noteq> [] \<and> (\<exists>result v. p (trim leftover) = Inr result
          \<and> member result (js ''isDone'') = Inr v \<and> \<not> truthy v)")
  case True
  then obtain result v where r: "p (trim leftover) = Inr result"
    "member result (js ''isDone'') = Inr v" "\<not> truthy v" "trim leftover \<noteq> []" by blast
  then have "emit cbs result st = (c, st')" using assms(2) by (simp add: flush_leftover_def)
  then show ?thesis using emit_no_thinking assms(1)[OF r(1)] assms(3) by blast
next
  case False
  then have "st' = st" using assms(2)
    by (auto simp: flush_leftover_def Let_def split: sum.splits if_splits)
  then show ?thesis using assms(3) by simp
qed

lemma for_await_no_thinking:
  assumes "\<And>line r. p line = Inr r \<Longrightarrow> thinking_of r = None"
  shows "for_await p cbs decoder cs d l st = (c, st') \<Longrightarrow> \<forall>s. OnThinking s \<notin> set (fst st)
     \<Longrightarrow> \<forall>s. OnThinking s \<notin> set (fst st')"
proof (induction cs arbitrary: d l st)
  case Nil
  then show ?case by simp
next
  case (Cons chunk rest)
  obtain decoded d1 where dec: "decode decoder d chunk = (decoded, d1)" by (cases "decode decoder d chunk")
  let ?lines = "split_on newline (l @ decoded)"
  obtain c1 st1 where pl: "process_lines p cbs (butlast ?lines) st = (c1, st1)"
    by (cases "process_lines p cbs (butlast ?lines) st")
  have st1: "\<forall>s. OnThinking s \<notin> set (fst st1)"
    using process_lines_no_thinking[OF assms pl Cons.prems(2)] by simp
  show ?case
  proof (cases c1)
    case (Normal u)
    then show ?thesis using Cons.prems(1) dec pl Cons.IH[OF _ st1] by (simp add: Let_def)
  next
    case Returned
    then show ?thesis using Cons.prems(1) dec pl st1 by (simp add: Let_def)
  next
    case (Thrown x)
    then show ?thesis using Cons.prems(1) dec pl st1 by (simp add: Let_def)
  qed
qed

lemma streamNDJSON_try_no_thinking:
  assumes "\<And>line r. p line = Inr r \<Longrightarrow> thinking_of r = None"
    "streamNDJSON_try p decoder body cbs st = (c, st')" "\<forall>s. OnThinking s \<notin> set (fst st)"
  shows "\<forall>s. OnThinking s \<notin> set (fst st')"
proof -
  obtain c1 st1 where fa: "for_await p cbs decoder (chunks body) (initial decoder) [] st = (c1, st1)"
    by (cases "for_await p cbs decoder (chunks body) (initial decoder) [] st")
  have st1: "\<forall>s. OnThinking s \<notin> set (fst st1)"
    using for_await_no_thinking[OF assms(1) fa assms(3)] by simp
  show ?thesis
  proof (cases c1)
    case (Normal leftover)
    show ?thesis
    proof (cases "failure body")
      case None
      obtain c2 st2 where fl: "flush_leftover p cbs leftover st1 = (c2, st2)"
        by (cases "flush_leftover p cbs leftover st1")
      have st2: "\<forall>s. OnThinking s \<notin> set (fst st2)"
        using flush_leftover_no_thinking[OF assms(1) fl st1] by simp
      show ?thesis using assms(2) fa Normal None fl st2
        by (auto simp: streamNDJSON_try_def split: completion.splits prod.splits option.splits
              dest!: call_onDone_log)
    next
      case (Some e)
      then show ?thesis using assms(2) fa Normal st1 by (simp add: streamNDJSON_try_def)
    qed
  next
    case Returned
    then show ?thesis using assms(2) fa st1 by (simp add: streamNDJSON_try_def)
  next
    case (Thrown x)
    then show ?thesis using assms(2) fa st1 by (simp add: streamNDJSON_try_def)
  qed
qed

lemma streamNDJSON_no_thinking:
  assumes "\<And>line r. p line = Inr r \<Longrightarrow> thinking_of r = None"
    "streamNDJSON p decoder body cbs st = (r, st')" "\<forall>s. OnThinking s \<notin> set (fst st)"
  shows "\<forall>s. OnThinking s \<notin> set (fst st')"
proof -
  obtain c1 st1 where t: "streamNDJSON_try p decoder body cbs st = (c1, st1)"
    by (cases "streamNDJSON_try p decoder body cbs st")
  have st1: "\<forall>s. OnThinking s \<notin> set (fst st1)"
    using streamNDJSON_try_no_thinking[OF assms(1) t assms(3)] by simp
  show ?thesis using assms(2) t st1
    by (auto simp: streamNDJSON_def split: completion.splits dest!: call_onDone_log)
qed

subsection \<open>The number of calls of \<open>onDone\<close>\<close>

lemma emit_done_count:
  assumes "emit cbs result st = (c, st')"
  shows "count_list (fst st') OnDone = count_list (fst st) OnDone \<and> c \<noteq> Returned"
proof -
  obtain new where n: "fst st' = fst st @ new"
    "set new \<subseteq> {OnContent s | s. content_of result = Some s} \<union> {OnThinking s | s. thinking_of result = Some s}"
    "c \<noteq> Returned"
    using emit_log[OF assms] by blast
  have "OnDone \<notin> set new" using n(2) by auto
  then have "count_list new OnDone = 0" by (simp add: count_list_0_iff)
  then show ?thesis using n by simp
qed

lemma process_lines_done_count:
  assumes ret: "\<And>w. fst (onDone cbs w) = None"
  shows "process_lines p cbs lines st = (c, st') \<Longrightarrow>
     count_list (fst st') OnDone = count_list (fst st) OnDone + done_added c"
proof (induction lines arbitrary: st)
  case Nil
  then show ?case by auto
next
  case (Cons raw rest)
  show ?case
  proof (cases "trim raw = []")
    case True
    then show ?thesis using Cons by simp
  next
    case False
    show ?thesis
    proof (cases "p (trim raw)")
      case (Inl e)
      then show ?thesis using Cons.prems False by auto
    next
      case (Inr result)
      show ?thesis
      proof (cases "member result (js ''isDone'')")
        case (Inl e)
        then show ?thesis using Cons.prems False Inr by auto
      next
        case isDone: (Inr v)
        show ?thesis
        proof (cases "truthy v")
          case True
          obtain r st1 where cd: "call_onDone cbs st = (r, st1)" by (cases "call_onDone cbs st")
          have "r = None" using call_onDone_returns[OF ret cd] .
          then show ?thesis using Cons.prems False Inr isDone True cd call_onDone_log[OF cd]
            by auto
        next
          case F: False
          obtain c1 st1 where e: "emit cbs result st = (c1, st1)" by (cases "emit cbs result st")
          note ec = emit_done_count[OF e]
          show ?thesis
          proof (cases c1)
            case (Normal u)
            then show ?thesis using Cons.prems(1) False Inr isDone F e Cons.IH[of st1] ec by simp
          next
            case Returned
            then show ?thesis using ec by simp
          next
            case (Thrown x)
            then show ?thesis using Cons.prems(1) False Inr isDone F e ec by auto
          qed
        qed
      qed
    qed
  qed
qed

lemma flush_leftover_done_count:
  assumes "flush_leftover p cbs leftover st = (c, st')"
  shows "count_list (fst st') OnDone = count_list (fst st) OnDone \<and> c \<noteq> Returned"
proof (cases "trim leftover \<noteq> [] \<and> (\<exists>result v. p (trim leftover) = Inr result
          \<and> member result (js ''isDone'') = Inr v \<and> \<not> truthy v)")
  case True
  then obtain result v where r: "p (trim leftover) = Inr result"
    "member result (js ''isDone'') = Inr v" "\<not> truthy v" "trim leftover \<noteq> []" by blast
  then have "emit cbs result st = (c, st')" using assms by (simp add: flush_leftover_def)
  then show ?thesis using emit_done_count by blast
next
  case False
  then have "st' = st \<and> c \<noteq> Returned" using assms
    by (auto simp: flush_leftover_def Let_def split: sum.splits if_splits)
  then show ?thesis by simp
qed

lemma for_await_done_count:
  assumes ret: "\<And>w. fst (onDone cbs w) = None"
  shows "for_await p cbs decoder cs d l st = (c, st') \<Longrightarrow>
     count_list (fst st') OnDone = count_list (fst st) OnDone + done_added c"
proof (induction cs arbitrary: d l st)
  case Nil
  then show ?case by auto
next
  case (Cons chunk rest)
  obtain decoded d1 where dec: "decode decoder d chunk = (decoded, d1)" by (cases "decode decoder d chunk")
  let ?lines = "split_on newline (l @ decoded)"
  obtain c1 st1 where pl: "process_lines p cbs (butlast ?lines) st = (c1, st1)"
    by (cases "process_lines p cbs (butlast ?lines) st")
  note pc = process_lines_done_count[OF ret pl]
  show ?case
  proof (cases c1)
    case (Normal u)
    then show ?thesis using Cons.prems(1) dec pl Cons.IH[of d1 "last ?lines" st1] pc by (simp add: Let_def)
  next
    case Returned
    then show ?thesis using Cons.prems(1) dec pl pc by (auto simp: Let_def)
  next
    case (Thrown x)
    then show ?thesis using Cons.prems(1) dec pl pc by (auto simp: Let_def)
  qed
qed

lemma streamNDJSON_try_done_count:
  assumes ret: "\<And>w. fst (onDone cbs w) = None"
    and run: "streamNDJSON_try p decoder body cbs st = (c, st')"
  shows "count_list (fst st') OnDone = count_list (fst st) OnDone + done_by_try c"
proof -
  obtain c1 st1 where fa: "for_await p cbs decoder (chunks body) (initial decoder) [] st = (c1, st1)"
    by (cases "for_await p cbs decoder (chunks body) (initial decoder) [] st")
  note fc = for_await_done_count[OF ret fa]
  show ?thesis
  proof (cases c1)
    case (Normal leftover)
    show ?thesis
    proof (cases "failure body")
      case None
      obtain c2 st2 where fl: "flush_leftover p cbs leftover st1 = (c2, st2)"
        by (cases "flush_leftover p cbs leftover st1")
      note flc = flush_leftover_done_count[OF fl]
      obtain r st3 where cd: "call_onDone cbs st2 = (r, st3)" by (cases "call_onDone cbs st2")
      have r: "r = None" using call_onDone_returns[OF ret cd] .
      show ?thesis
      proof (cases c2)
        case N2: (Normal u)
        then show ?thesis using run fa Normal None fl flc cd r call_onDone_log[OF cd] fc
          by (auto simp: streamNDJSON_try_def)
      next
        case Returned
        then show ?thesis using flc by simp
      next
        case (Thrown x)
        then show ?thesis using run fa Normal None fl flc fc
          by (auto simp: streamNDJSON_try_def)
      qed
    next
      case (Some e)
      then show ?thesis using run fa Normal fc by (auto simp: streamNDJSON_try_def)
    qed
  next
    case Returned
    then show ?thesis using run fa fc by (auto simp: streamNDJSON_try_def)
  next
    case (Thrown x)
    then show ?thesis using run fa fc by (auto simp: streamNDJSON_try_def)
  qed
qed

lemma onDone_once_when_it_returns:
  assumes ret: "\<And>w. fst (onDone cbs w) = None"
    and run: "streamNDJSON p decoder body cbs st = (r, st')"
  shows "r = None \<and> count_list (fst st') OnDone = count_list (fst st) OnDone + 1"
proof -
  obtain c1 st1 where t: "streamNDJSON_try p decoder body cbs st = (c1, st1)"
    by (cases "streamNDJSON_try p decoder body cbs st")
  note tc = streamNDJSON_try_done_count[OF ret t]
  show ?thesis
  proof (cases c1)
    case (Thrown e)
    then have cd: "call_onDone cbs st1 = (r, st')" using run t by (simp add: streamNDJSON_def)
    show ?thesis using call_onDone_returns[OF ret cd] call_onDone_log[OF cd] tc Thrown by simp
  next
    case (Normal u)
    then show ?thesis using run t tc by (auto simp: streamNDJSON_def)
  next
    case Returned
    then show ?thesis using run t tc by (auto simp: streamNDJSON_def)
  qed
qed


text \<open>
  When \<open>onDone\<close> returns normally whenever it is called, \<open>_streamNDJSON\<close> calls it
  exactly once on every path, and returns normally itself.
\<close>

lemma onDone_exactly_once:
  assumes "\<And>w. fst (onDone cbs w) = None"
  shows "fst (streamNDJSON p decoder body cbs ([], w)) = None \<and>
         count_list (fst (snd (streamNDJSON p decoder body cbs ([], w)))) OnDone = 1"
proof -
  obtain r st' where run: "streamNDJSON p decoder body cbs ([], w) = (r, st')"
    by (cases "streamNDJSON p decoder body cbs ([], w)")
  show ?thesis using onDone_once_when_it_returns[OF assms run] by (simp add: run)
qed

text \<open>
  Claim C1 fails where \<open>onDone\<close> itself throws. With callbacks whose \<open>onDone\<close> throws on its
  first call, the call at the normal end of the stream (line 79), or the one for the done
  sentinel (line 60), throws inside the \<open>try\<close> block, and the \<open>catch\<close> clause calls
  \<open>onDone\<close> once more (line 83): two invocations in one call of \<open>_streamNDJSON\<close>, on the
  empty body with any parser and decoder, and on the body \<open>data: [DONE]\<close> of the cloud
  provider. The caller's state counts the calls.
\<close>

theorem onDone_invoked_twice_when_it_throws:
  \<open>streamNDJSON parseStreamLine decoder \<lparr>chunks = [], failure = None\<rparr>
     failing_onDone_callbacks ([], 0)
   = (None, ([OnDone, OnDone], 2)) \<and>
   streamNDJSON (OpenAI_parseStreamLine JSON_parse) utf8_decoder
     \<lparr>chunks = [ascii_bytes ''data: [DONE]'' @ [0x0A]], failure = None\<rparr>
     failing_onDone_callbacks ([], 0)
   = (None, ([OnDone, OnDone], 2))\<close>
  by (simp add: streamNDJSON_def streamNDJSON_try_def flush_leftover_def trim_def
       call_onDone_def failing_onDone_callbacks_def ascii_bytes_def utf8_decoder_def utf8_initial_def
       utf8_feed_def utf8_lead_def utf8_emit_def utf8_reset_def utf16_encode_def newline_def
       is_js_whitespace_def OpenAI_parseStreamLine_def js_def Let_def)

subsection \<open>Chunk boundaries\<close>

lemma decode_append:
  "decode decoder d (a @ b) =
     (case decode decoder d a of (t1, d1) \<Rightarrow>
        (case decode decoder d1 b of (t2, d2) \<Rightarrow> (t1 @ t2, d2)))"
  by (induction a arbitrary: d) (auto split: prod.splits)

lemma process_lines_append:
  "process_lines p cbs (xs @ ys) st =
     (case process_lines p cbs xs st of
        (Normal u, st1) \<Rightarrow> process_lines p cbs ys st1
      | (Returned, st1) \<Rightarrow> (Returned, st1)
      | (Thrown e, st1) \<Rightarrow> (Thrown e, st1))"
  by (induction xs arbitrary: st)
     (auto simp: Let_def split: sum.splits prod.splits completion.splits option.splits)

lemma for_await_merge:
  "for_await p cbs decoder (c1 # c2 # rest) d l st =
   for_await p cbs decoder ((c1 @ c2) # rest) d l st"
proof -
  obtain t1 d1 where 1: "decode decoder d c1 = (t1, d1)" by (cases "decode decoder d c1")
  obtain t2 d2 where 2: "decode decoder d1 c2 = (t2, d2)" by (cases "decode decoder d1 c2")
  have 3: "decode decoder d (c1 @ c2) = (t1 @ t2, d2)"
    by (simp add: decode_append 1 2)
  define L1 where "L1 = split_on newline (l @ t1)"
  define L2 where "L2 = split_on newline (last L1 @ t2)"
  have 4: "split_on newline (l @ t1 @ t2) = butlast L1 @ L2"
    using split_on_append[of newline "l @ t1" t2] by (simp add: L1_def L2_def)
  have 5: "L2 \<noteq> []" by (simp add: L2_def split_on_nonempty)
  have 6: "butlast (butlast L1 @ L2) = butlast L1 @ butlast L2" "last (butlast L1 @ L2) = last L2"
    using 5 by (simp_all add: butlast_append)
  show ?thesis
    using 1 2 3 4 6
    by (simp add: L1_def[symmetric] L2_def[symmetric] process_lines_append
          split: prod.splits completion.splits)
qed

lemma for_await_concat:
  "for_await p cbs decoder (c # cs) d l st = for_await p cbs decoder [concat (c # cs)] d l st"
proof (induction cs arbitrary: c)
  case Nil
  then show ?case by simp
next
  case (Cons c' cs)
  have "for_await p cbs decoder (c # c' # cs) d l st = for_await p cbs decoder ((c @ c') # cs) d l st"
    by (rule for_await_merge)
  also have "\<dots> = for_await p cbs decoder [concat ((c @ c') # cs)] d l st"
    by (rule Cons.IH)
  finally show ?case by simp
qed

lemma for_await_chunking:
  "for_await p cbs decoder cs d [] st = for_await p cbs decoder [concat cs] d [] st"
proof (cases cs)
  case Nil
  then show ?thesis by simp
next
  case (Cons c cs')
  show ?thesis unfolding Cons by (rule for_await_concat)
qed

lemma streamNDJSON_try_chunking:
  "streamNDJSON_try p decoder \<lparr>chunks = cs, failure = f\<rparr> cbs st =
   streamNDJSON_try p decoder \<lparr>chunks = [concat cs], failure = f\<rparr> cbs st"
  using for_await_chunking[of p cbs decoder cs "initial decoder" st]
  by (simp add: streamNDJSON_try_def del: for_await.simps split: prod.splits completion.splits)

lemma streamNDJSON_chunking:
  "streamNDJSON p decoder \<lparr>chunks = cs, failure = f\<rparr> cbs st =
   streamNDJSON p decoder \<lparr>chunks = [concat cs], failure = f\<rparr> cbs st"
  using streamNDJSON_try_chunking[of p decoder cs f cbs st]
  by (simp add: streamNDJSON_def)

text \<open>
  Claim C2. However the bytes of a body are cut into chunks, \<open>_streamNDJSON\<close> does what
  it does on the body delivered as one chunk: it calls the same callbacks with the same
  arguments in the same order (the log), leaves the caller in the same state, and ends the
  same way. This holds for every parser, every decoder that reads its input byte by
  byte, keeping an unfinished character in its state, all callbacks, and a body that ends
  normally or fails.
\<close>

theorem chunk_boundary_invariance:
  "concat cs = bytes \<Longrightarrow>
   streamNDJSON parseStreamLine decoder \<lparr>chunks = cs, failure = f\<rparr> cbs st =
   streamNDJSON parseStreamLine decoder \<lparr>chunks = [bytes], failure = f\<rparr> cbs st"
  using streamNDJSON_chunking[of parseStreamLine decoder cs f cbs st] by simp

text \<open>
  An instance with the UTF-8 decoder: the two bytes of U+00E9 arrive in different chunks,
  and two chunks end in the middle of a line.
\<close>

theorem chunk_boundary_invariance_witness:
  \<open>concat [ascii_bytes ''{"message":{"con'', ascii_bytes ''tent":"'' @ [0xC3],
           [0xA9] @ ascii_bytes ''"}}'' @ [0x0A] @ ascii_bytes ''{"done":tr'',
           ascii_bytes ''ue}'' @ [0x0A]]
     = ascii_bytes ''{"message":{"content":"'' @ [0xC3, 0xA9] @ ascii_bytes ''"}}'' @ [0x0A] @
       ascii_bytes ''{"done":true}'' @ [0x0A] \<and>
   streamNDJSON (SelfHosted_parseStreamLine example_JSON_parse) utf8_decoder
     \<lparr>chunks = [ascii_bytes ''{"message":{"con'', ascii_bytes ''tent":"'' @ [0xC3],
                 [0xA9] @ ascii_bytes ''"}}'' @ [0x0A] @ ascii_bytes ''{"done":tr'',
                 ascii_bytes ''ue}'' @ [0x0A]],
      failure = None\<rparr>
     quiet_callbacks ([], ())
     = (None, ([OnContent [0x00E9], OnDone], ()))\<close>
proof -
  let ?cs = \<open>[ascii_bytes ''{"message":{"con'', ascii_bytes ''tent":"'' @ [0xC3],
           [0xA9] @ ascii_bytes ''"}}'' @ [0x0A] @ ascii_bytes ''{"done":tr'',
           ascii_bytes ''ue}'' @ [0x0A]]\<close>
  let ?bytes = \<open>ascii_bytes ''{"message":{"content":"'' @ [0xC3, 0xA9] @ ascii_bytes ''"}}'' @ [0x0A] @
       ascii_bytes ''{"done":true}'' @ [0x0A]\<close>
  have c: "concat ?cs = ?bytes" by (simp add: ascii_bytes_def)
  have one: "streamNDJSON (SelfHosted_parseStreamLine example_JSON_parse) utf8_decoder
     \<lparr>chunks = [?bytes], failure = None\<rparr> (quiet_callbacks :: unit callbacks) ([], ())
     = (None, ([OnContent [0x00E9], OnDone], ()))"
    by code_simp
  show ?thesis
    using chunk_boundary_invariance[OF c, of "SelfHosted_parseStreamLine example_JSON_parse"
        utf8_decoder None quiet_callbacks "([], ())"] c one
    by simp
qed

subsection \<open>The end-to-end scenario\<close>

lemma call_onContent_returns:
  "fst (onContent cbs s (snd st)) = None \<Longrightarrow>
   call_onContent cbs s st = (None, (fst st @ [OnContent s], snd (onContent cbs s (snd st))))"
  by (cases "onContent cbs s (snd st)") (simp add: call_onContent_def)

lemma call_onDone_returns_value:
  "fst (onDone cbs (snd st)) = None \<Longrightarrow>
   call_onDone cbs st = (None, (fst st @ [OnDone], snd (onDone cbs (snd st))))"
  by (cases "onDone cbs (snd st)") (simp add: call_onDone_def)

lemma scenario_lines:
  \<open>split_on newline scenario_text =
     [js ''{"message":{"content":"a"}}'', js ''{"message":{"content":"b"}}'',
      js ''{"done":true}'', []]\<close>
  by (simp add: scenario_text_def newline_def js_def)

lemma scenario_trims:
  \<open>trim (js ''{"message":{"content":"a"}}'') = js ''{"message":{"content":"a"}}''\<close>
  \<open>trim (js ''{"message":{"content":"b"}}'') = js ''{"message":{"content":"b"}}''\<close>
  \<open>trim (js ''{"done":true}'') = js ''{"done":true}''\<close>
  by (simp_all add: trim_def js_def is_js_whitespace_def)

lemma scenario_nonempty:
  \<open>js ''{"message":{"content":"a"}}'' \<noteq> []\<close>
  \<open>js ''{"message":{"content":"b"}}'' \<noteq> []\<close>
  \<open>js ''{"done":true}'' \<noteq> []\<close>
  by (simp_all add: js_def)

lemma content_increment:
  assumes "P line = Some (JObj [(js ''message'', JObj [(js ''content'', JStr s)])])"
  shows "SelfHosted_parseStreamLine P line =
           Inr (JObj [(js ''content'', JStr s), (js ''thinking'', JUndefined)])"
proof -
  have k: "js ''message'' \<noteq> js ''done''" "js ''content'' \<noteq> js ''thinking''"
    "js ''done'' \<noteq> js ''message''" "js ''thinking'' \<noteq> js ''content''"
    by (simp_all add: js_def)
  show ?thesis using assms
    by (simp add: SelfHosted_parse_cases nullish_def opt_member_def k)
qed

lemma done_increment:
  assumes "P line = Some (JObj [(js ''done'', JBool True)])"
  shows "SelfHosted_parseStreamLine P line =
           Inr (JObj [(js ''isDone'', JBool True), (js ''reason'', JStr (js ''self-hosted DONE''))])"
  using assms by (simp add: SelfHosted_parse_cases nullish_def opt_member_def)

lemma emit_content_only:
  assumes "fst (onContent cbs s (snd st)) = None"
  shows "emit cbs (JObj [(js ''content'', JStr s), (js ''thinking'', JUndefined)]) st =
           (Normal (), (fst st @ [OnContent s], snd (onContent cbs s (snd st))))"
  using call_onContent_returns[OF assms]
  by (simp add: emit_def property_names_differ)

text \<open>
  Claim C8. Let \<open>JSON.parse\<close> read the three lines as the JSON values they denote, let the
  body, in whatever chunks, decode to the three lines, each ended by a newline, and let
  the callbacks return normally. Then the self-hosted stream path calls
  \<open>onContent("a")\<close>, \<open>onContent("b")\<close> and \<open>onDone()\<close>, in this order, and nothing else,
  and returns normally.
\<close>

theorem three_line_scenario:
  assumes a: \<open>JSON_parse (js ''{"message":{"content":"a"}}'') =
                Some (JObj [(js ''message'', JObj [(js ''content'', JStr (js ''a''))])])\<close>
    and b: \<open>JSON_parse (js ''{"message":{"content":"b"}}'') =
                Some (JObj [(js ''message'', JObj [(js ''content'', JStr (js ''b''))])])\<close>
    and d: \<open>JSON_parse (js ''{"done":true}'') = Some (JObj [(js ''done'', JBool True)])\<close>
    and dec: "fst (decode decoder (initial decoder) (concat cs)) = scenario_text"
    and oc: "\<And>s w. fst (onContent cbs s w) = None"
    and od: "\<And>w. fst (onDone cbs w) = None"
  shows "\<exists>w'. streamNDJSON (SelfHosted_parseStreamLine JSON_parse) decoder
                 \<lparr>chunks = cs, failure = f\<rparr> cbs ([], w)
               = (None, ([OnContent (js ''a''), OnContent (js ''b''), OnDone], w'))"
proof -
  let ?p = "SelfHosted_parseStreamLine JSON_parse"
  obtain d1 where dec1: "decode decoder (initial decoder) (concat cs) = (scenario_text, d1)"
    using dec by (cases "decode decoder (initial decoder) (concat cs)") auto
  define st1 where "st1 = ([OnContent (js ''a'')], snd (onContent cbs (js ''a'') w))"
  define st2 where
    "st2 = ([OnContent (js ''a''), OnContent (js ''b'')], snd (onContent cbs (js ''b'') (snd st1)))"
  define st3 where
    "st3 = ([OnContent (js ''a''), OnContent (js ''b''), OnDone], snd (onDone cbs (snd st2)))"
  have e1: "emit cbs (JObj [(js ''content'', JStr (js ''a'')), (js ''thinking'', JUndefined)]) ([], w)
              = (Normal (), st1)"
    using emit_content_only[of cbs "js ''a''" "([], w)"] oc by (simp add: st1_def)
  have e2: "emit cbs (JObj [(js ''content'', JStr (js ''b'')), (js ''thinking'', JUndefined)]) st1
              = (Normal (), st2)"
    using emit_content_only[of cbs "js ''b''" st1] oc by (simp add: st2_def st1_def)
  have e3: "call_onDone cbs st2 = (None, st3)"
    using call_onDone_returns_value[of cbs st2] od by (simp add: st3_def st2_def)
  have lines: \<open>process_lines ?p cbs
           [js ''{"message":{"content":"a"}}'', js ''{"message":{"content":"b"}}'',
            js ''{"done":true}''] ([], w) = (Returned, st3)\<close>
    by (simp add: scenario_trims scenario_nonempty content_increment[where P = JSON_parse, OF a]
          content_increment[where P = JSON_parse, OF b] done_increment[where P = JSON_parse, OF d] property_names_differ e1 e2 e3)
  have "for_await ?p cbs decoder [concat cs] (initial decoder) [] ([], w) = (Returned, st3)"
    using dec1 lines by (simp add: scenario_lines)
  then have "streamNDJSON ?p decoder \<lparr>chunks = [concat cs], failure = f\<rparr> cbs ([], w) = (None, st3)"
    by (simp add: streamNDJSON_def streamNDJSON_try_def del: for_await.simps)
  then have "streamNDJSON ?p decoder \<lparr>chunks = cs, failure = f\<rparr> cbs ([], w) = (None, st3)"
    by (simp only: streamNDJSON_chunking[of ?p decoder cs f cbs "([], w)"])
  then show ?thesis by (auto simp: st3_def)
qed

theorem three_line_scenario_witness:
  \<open>fst (decode utf8_decoder (initial utf8_decoder)
          (concat [ascii_bytes ''{"message":{"content":"a"}}'' @ [0x0A] @ ascii_bytes ''{"mess'',
                   ascii_bytes ''age":{"content":"b"}}'' @ [0x0A],
                   ascii_bytes ''{"done":true}'' @ [0x0A]])) = scenario_text \<and>
   streamNDJSON (SelfHosted_parseStreamLine example_JSON_parse) utf8_decoder
     \<lparr>chunks = [ascii_bytes ''{"message":{"content":"a"}}'' @ [0x0A] @ ascii_bytes ''{"mess'',
                 ascii_bytes ''age":{"content":"b"}}'' @ [0x0A],
                 ascii_bytes ''{"done":true}'' @ [0x0A]],
      failure = None\<rparr>
     quiet_callbacks ([], ())
   = (None, ([OnContent (js ''a''), OnContent (js ''b''), OnDone], ()))\<close>
proof -
  let ?cs = \<open>[ascii_bytes ''{"message":{"content":"a"}}'' @ [0x0A] @ ascii_bytes ''{"mess'',
                   ascii_bytes ''age":{"content":"b"}}'' @ [0x0A],
                   ascii_bytes ''{"done":true}'' @ [0x0A]]\<close>
  have a: \<open>example_JSON_parse (js ''{"message":{"content":"a"}}'') =
                Some (JObj [(js ''message'', JObj [(js ''content'', JStr (js ''a''))])])\<close>
    by (simp add: example_JSON_parse_def example_JSON_texts_def js_def)
  have b: \<open>example_JSON_parse (js ''{"message":{"content":"b"}}'') =
                Some (JObj [(js ''message'', JObj [(js ''content'', JStr (js ''b''))])])\<close>
    by (simp add: example_JSON_parse_def example_JSON_texts_def js_def)
  have d: \<open>example_JSON_parse (js ''{"done":true}'') = Some (JObj [(js ''done'', JBool True)])\<close>
    by (simp add: example_JSON_parse_def example_JSON_texts_def js_def)
  have dec: "fst (decode utf8_decoder (initial utf8_decoder) (concat ?cs)) = scenario_text"
    by code_simp
  have oc: "\<And>s w. fst (onContent (quiet_callbacks :: unit callbacks) s w) = None"
    by (simp add: quiet_callbacks_def)
  have od: "\<And>w. fst (onDone (quiet_callbacks :: unit callbacks) w) = None"
    by (simp add: quiet_callbacks_def)
  show ?thesis
    using three_line_scenario[where JSON_parse = example_JSON_parse and decoder = utf8_decoder
        and cs = ?cs and cbs = "quiet_callbacks :: unit callbacks" and f = None and w = "()",
        OF a b d dec oc od] dec
    by simp
qed

subsection \<open>The cloud provider never reports thinking\<close>

lemma OpenAI_thinking_of:
  "OpenAI_parseStreamLine P line = Inr r \<Longrightarrow> thinking_of r = None"
  using OpenAI_no_thinking[of P line r] by (simp add: thinking_of_def)

lemma cloud_reducer_no_thinking:
  "OnThinking s \<notin> set (fst (snd (streamNDJSON (OpenAI_parseStreamLine P) decoder body cbs st)))"
  if "\<forall>s. OnThinking s \<notin> set (fst st)"
proof -
  obtain r st' where run: "streamNDJSON (OpenAI_parseStreamLine P) decoder body cbs st = (r, st')"
    by (cases "streamNDJSON (OpenAI_parseStreamLine P) decoder body cbs st")
  have nt: "\<And>line r. OpenAI_parseStreamLine P line = Inr r \<Longrightarrow> thinking_of r = None"
    by (rule OpenAI_thinking_of)
  show ?thesis using streamNDJSON_no_thinking[OF nt run that] by (simp add: run)
qed

text \<open>
  Claim C10. Whatever \<open>JSON.parse\<close> does, the increment of the cloud parser has no
  \<open>thinking\<close> property, so neither the reducer run with the cloud parser nor
  \<open>streamResponse\<close> of the cloud provider ever calls \<open>onThinking\<close>.
\<close>

theorem cloud_stream_never_thinking:
  "(\<forall>r. OpenAI_parseStreamLine JSON_parse line = Inr r \<longrightarrow>
        member r (js ''thinking'') = Inr JUndefined \<and> thinking_of r = None) \<and>
   (\<forall>s. OnThinking s \<notin> set (fst (snd (streamNDJSON (OpenAI_parseStreamLine JSON_parse) decoder
                                        body cbs ([], w))))) \<and>
   (\<forall>s. OnThinking s \<notin> set (fst (snd (OpenAI_streamResponse fetch JSON_parse decoder config
                                        ([], w)))))"
proof -
  have resp: "\<forall>s. OnThinking s \<notin> set (fst (snd (OpenAI_streamResponse fetch JSON_parse decoder config
                                        ([], w))))"
    by (auto simp: OpenAI_streamResponse_def cloud_reducer_no_thinking split: prod.splits sum.splits)
  show ?thesis
    using resp OpenAI_no_thinking[of JSON_parse line] OpenAI_thinking_of[of JSON_parse line]
    by (simp add: cloud_reducer_no_thinking)
qed

text \<open>
  An instance; and the self-hosted parser, on a line with \<open>message.thinking\<close>, does lead to
  a call of \<open>onThinking\<close>.
\<close>

theorem cloud_stream_never_thinking_witness:
  \<open>streamNDJSON (OpenAI_parseStreamLine example_JSON_parse) utf8_decoder
     \<lparr>chunks = [ascii_bytes ''data: {"choices":[{"delta":{"content":"x"}}]}'' @ [0x0A],
                 ascii_bytes ''data: [DONE]'' @ [0x0A]],
      failure = None\<rparr>
     quiet_callbacks ([], ())
   = (None, ([OnContent (js ''x''), OnDone], ())) \<and>
   OnThinking (js ''hm'') \<notin> set (fst (snd (
     streamNDJSON (OpenAI_parseStreamLine example_JSON_parse) utf8_decoder
       \<lparr>chunks = [ascii_bytes ''data: {"choices":[{"delta":{"content":"x"}}]}'' @ [0x0A],
                   ascii_bytes ''data: [DONE]'' @ [0x0A]],
        failure = None\<rparr>
       quiet_callbacks ([], ())))) \<and>
   streamNDJSON (SelfHosted_parseStreamLine example_JSON_parse) utf8_decoder
     \<lparr>chunks = [ascii_bytes ''{"message":{"thinking":"hm"}}'' @ [0x0A]], failure = None\<rparr>
     quiet_callbacks ([], ())
   = (None, ([OnThinking (js ''hm''), OnDone], ()))\<close>
proof -
  have 1: \<open>streamNDJSON (OpenAI_parseStreamLine example_JSON_parse) utf8_decoder
     \<lparr>chunks = [ascii_bytes ''data: {"choices":[{"delta":{"content":"x"}}]}'' @ [0x0A],
                 ascii_bytes ''data: [DONE]'' @ [0x0A]],
      failure = None\<rparr>
     (quiet_callbacks :: unit callbacks) ([], ())
   = (None, ([OnContent (js ''x''), OnDone], ()))\<close>
    by code_simp
  have 2: \<open>streamNDJSON (SelfHosted_parseStreamLine example_JSON_parse) utf8_decoder
     \<lparr>chunks = [ascii_bytes ''{"message":{"thinking":"hm"}}'' @ [0x0A]], failure = None\<rparr>
     (quiet_callbacks :: unit callbacks) ([], ())
   = (None, ([OnThinking (js ''hm''), OnDone], ()))\<close>
    by code_simp
  show ?thesis
    using cloud_stream_never_thinking[where JSON_parse = example_JSON_parse
        and decoder = utf8_decoder and cbs = "quiet_callbacks :: unit callbacks" and w = "()"
        and body = \<open>\<lparr>chunks = [ascii_bytes ''data: {"choices":[{"delta":{"content":"x"}}]}'' @ [0x0A],
                 ascii_bytes ''data: [DONE]'' @ [0x0A]], failure = None\<rparr>\<close>] 1 2
    by simp
qed

section \<open>The providers\<close>

subsection \<open>Retry without thinking\<close>

lemma error_field_match:
  "map_of kvs (js ''error'') = Some (JStr msg) \<Longrightarrow>
   thinking_unsupported (HttpError n (JObj kvs)) =
     Inr (regex_search msg (js ''does not support thinking''))"
  by (cases msg)
     (simp_all add: thinking_unsupported_def errorMsg_def opt_member_def nullish_def js_or_def
        js_def)

lemma raw_body_no_match: "thinking_unsupported (HttpError n (JStr raw)) = Inr False"
  by (simp add: thinking_unsupported_def errorMsg_def opt_member_def nullish_def js_or_def js_def)

lemma js_error_no_match: "thinking_unsupported (JsError name) = Inr False"
  by (simp add: thinking_unsupported_def errorMsg_def opt_member_def nullish_def js_or_def js_def)

lemma no_error_field_no_match:
  "map_of kvs (js ''error'') = None \<Longrightarrow> thinking_unsupported (HttpError n (JObj kvs)) = Inr False"
  by (simp add: thinking_unsupported_def errorMsg_def opt_member_def nullish_def js_or_def js_def)

text \<open>
  An \<open>error\<close> that is an object with a property \<open>toString\<close> of its own cannot be converted
  to a string: the test throws a TypeError, which leaves the \<open>catch\<close> clause and the
  operation in place of the error of the first attempt; no second request is sent.
\<close>

lemma unconvertible_error_field:
  "map_of kvs (js ''error'') = Some (JObj props) \<Longrightarrow> map_of props (js ''toString'') = Some v \<Longrightarrow>
   thinking_unsupported (HttpError n (JObj kvs)) = Inl (JsError ''TypeError'')"
  by (simp add: thinking_unsupported_def errorMsg_def opt_member_def nullish_def js_or_def)

lemma generateResponse_test_throws:
  assumes "think config"
    "SelfHosted_bulk_request fetch JSON_parse (config\<lparr>stream := False, think := True\<rparr>) w
       = (Inl err, w1)"
    "thinking_unsupported err = Inl type_error"
  shows "SelfHosted_generateResponse fetch JSON_parse config w = (Inl type_error, w1)"
  using assms by (simp add: SelfHosted_generateResponse_def thinking_unsupported_def)

lemma streamResponse_test_throws:
  assumes "think config"
    "SelfHosted_stream_request fetch JSON_parse decoder (config\<lparr>stream := True, think := True\<rparr>)
       config st = (Some err, st1)"
    "thinking_unsupported err = Inl type_error"
  shows "SelfHosted_streamResponse fetch JSON_parse decoder config st = (Some type_error, st1)"
  using assms by (simp add: SelfHosted_streamResponse_def thinking_unsupported_def)

lemma generateResponse_cases:
  "(think config \<and>
    SelfHosted_bulk_request fetch JSON_parse (config\<lparr>stream := False, think := True\<rparr>) w
      = (Inr v, w1) \<longrightarrow>
      SelfHosted_generateResponse fetch JSON_parse config w = (Inr v, w1)) \<and>
   (think config \<and>
    SelfHosted_bulk_request fetch JSON_parse (config\<lparr>stream := False, think := True\<rparr>) w
      = (Inl err, w1) \<and> thinking_unsupported err = Inr matched \<longrightarrow>
      SelfHosted_generateResponse fetch JSON_parse config w =
        (if matched then
           SelfHosted_bulk_request fetch JSON_parse (config\<lparr>stream := False, think := False\<rparr>) w1
         else (Inl err, w1))) \<and>
   (\<not> think config \<longrightarrow>
      SelfHosted_generateResponse fetch JSON_parse config w =
        SelfHosted_bulk_request fetch JSON_parse (config\<lparr>stream := False, think := False\<rparr>) w)"
  by (simp add: SelfHosted_generateResponse_def thinking_unsupported_def)

lemma streamResponse_cases:
  "(think config \<and>
    SelfHosted_stream_request fetch JSON_parse decoder (config\<lparr>stream := True, think := True\<rparr>)
      config st = (None, st1) \<longrightarrow>
      SelfHosted_streamResponse fetch JSON_parse decoder config st = (None, st1)) \<and>
   (think config \<and>
    SelfHosted_stream_request fetch JSON_parse decoder (config\<lparr>stream := True, think := True\<rparr>)
      config st = (Some err, st1) \<and> thinking_unsupported err = Inr matched \<longrightarrow>
      SelfHosted_streamResponse fetch JSON_parse decoder config st =
        (if matched then
           SelfHosted_stream_request fetch JSON_parse decoder
             (config\<lparr>stream := True, think := False\<rparr>) config st1
         else (Some err, st1))) \<and>
   (\<not> think config \<longrightarrow>
      SelfHosted_streamResponse fetch JSON_parse decoder config st =
        SelfHosted_stream_request fetch JSON_parse decoder
          (config\<lparr>stream := True, think := False\<rparr>) config st)"
  by (simp add: SelfHosted_streamResponse_def thinking_unsupported_def)

lemma generateResponse_machine:
  assumes "\<And>err. bulk_failed (fst (SelfHosted_bulk_request fetch JSON_parse
                (config\<lparr>stream := False, think := True\<rparr>) w)) = Some err \<Longrightarrow>
             \<exists>matched. thinking_unsupported err = Inr matched"
  shows "SelfHosted_generateResponse fetch JSON_parse config w =
     retry_state_machine
       (\<lambda>t. SelfHosted_bulk_request fetch JSON_parse (config\<lparr>stream := False, think := t\<rparr>))
       bulk_failed error_matches (think config) w"
proof (cases "think config")
  case False
  then show ?thesis by (simp add: SelfHosted_generateResponse_def retry_state_machine_def)
next
  case True
  obtain r w1 where a: "SelfHosted_bulk_request fetch JSON_parse
      (config\<lparr>stream := False, think := True\<rparr>) w = (r, w1)"
    by (cases "SelfHosted_bulk_request fetch JSON_parse (config\<lparr>stream := False, think := True\<rparr>) w")
  show ?thesis
  proof (cases r)
    case (Inr v)
    then show ?thesis using True a
      by (simp add: SelfHosted_generateResponse_def retry_state_machine_def)
  next
    case (Inl err)
    then obtain matched where "thinking_unsupported err = Inr matched"
      using assms[of err] a by auto
    then show ?thesis using True a Inl
      by (simp add: SelfHosted_generateResponse_def retry_state_machine_def error_matches_def
            thinking_unsupported_def)
  qed
qed

lemma streamResponse_machine:
  assumes "\<And>err. fst (SelfHosted_stream_request fetch JSON_parse decoder
                (config\<lparr>stream := True, think := True\<rparr>) config st) = Some err \<Longrightarrow>
             \<exists>matched. thinking_unsupported err = Inr matched"
  shows "SelfHosted_streamResponse fetch JSON_parse decoder config st =
     retry_state_machine
       (\<lambda>t. SelfHosted_stream_request fetch JSON_parse decoder
               (config\<lparr>stream := True, think := t\<rparr>) config)
       (\<lambda>r. r) error_matches (think config) st"
proof (cases "think config")
  case False
  then show ?thesis by (simp add: SelfHosted_streamResponse_def retry_state_machine_def)
next
  case True
  obtain r st1 where a: "SelfHosted_stream_request fetch JSON_parse decoder
      (config\<lparr>stream := True, think := True\<rparr>) config st = (r, st1)"
    by (cases "SelfHosted_stream_request fetch JSON_parse decoder
      (config\<lparr>stream := True, think := True\<rparr>) config st")
  show ?thesis
  proof (cases r)
    case None
    then show ?thesis using True a
      by (simp add: SelfHosted_streamResponse_def retry_state_machine_def)
  next
    case (Some err)
    then obtain matched where "thinking_unsupported err = Inr matched"
      using assms[of err] a by auto
    then show ?thesis using True a Some
      by (simp add: SelfHosted_streamResponse_def retry_state_machine_def error_matches_def
            thinking_unsupported_def)
  qed
qed

text \<open>
  Claim C3, as the code has it. With \<open>think\<close> set, when the first attempt of
  \<open>generateResponse\<close> or of \<open>streamResponse\<close> fails with an error on which the test of the
  \<open>catch\<close> clause gives \<open>true\<close>, one attempt with \<open>think: false\<close> follows, made in the state
  the first one left, and its result is the result; when the test gives \<open>false\<close>, the call
  ends with the error of the first attempt, in the state that attempt left: nothing more
  is sent. A first attempt that succeeds ends the call. Wherever the test gives an
  answer on the error of the first attempt, both operations are the retry state machine
  of the specification, over the bulk attempt and over the streaming attempt. The test
  gives \<open>true\<close> for the \<open>{status, body}\<close> error of a failed HTTP call whose body is a JSON
  object with a string \<open>error\<close> in which the phrase occurs; it gives \<open>false\<close> when the
  phrase does not occur in that string, when the object has no \<open>error\<close>, when the body is
  not JSON (plain text, kept as a string), and for an error without a body.
\<close>

theorem think_retry_on_error_field:
  "(think config \<and>
    SelfHosted_bulk_request fetch JSON_parse (config\<lparr>stream := False, think := True\<rparr>) w
      = (Inl err, w1) \<and> thinking_unsupported err = Inr matched \<longrightarrow>
      SelfHosted_generateResponse fetch JSON_parse config w =
        (if matched then
           SelfHosted_bulk_request fetch JSON_parse (config\<lparr>stream := False, think := False\<rparr>) w1
         else (Inl err, w1))) \<and>
   (think config \<and>
    SelfHosted_stream_request fetch JSON_parse decoder (config\<lparr>stream := True, think := True\<rparr>)
      config st = (Some err, st1) \<and> thinking_unsupported err = Inr matched \<longrightarrow>
      SelfHosted_streamResponse fetch JSON_parse decoder config st =
        (if matched then
           SelfHosted_stream_request fetch JSON_parse decoder
             (config\<lparr>stream := True, think := False\<rparr>) config st1
         else (Some err, st1))) \<and>
   (think config \<and>
    SelfHosted_bulk_request fetch JSON_parse (config\<lparr>stream := False, think := True\<rparr>) w
      = (Inr v, w1) \<longrightarrow>
      SelfHosted_generateResponse fetch JSON_parse config w = (Inr v, w1)) \<and>
   (think config \<and>
    SelfHosted_stream_request fetch JSON_parse decoder (config\<lparr>stream := True, think := True\<rparr>)
      config st = (None, st1) \<longrightarrow>
      SelfHosted_streamResponse fetch JSON_parse decoder config st = (None, st1)) \<and>
   ((\<forall>e. bulk_failed (fst (SelfHosted_bulk_request fetch JSON_parse
                (config\<lparr>stream := False, think := True\<rparr>) w)) = Some e \<longrightarrow>
          (\<exists>b. thinking_unsupported e = Inr b)) \<longrightarrow>
      SelfHosted_generateResponse fetch JSON_parse config w =
        retry_state_machine
          (\<lambda>t. SelfHosted_bulk_request fetch JSON_parse (config\<lparr>stream := False, think := t\<rparr>))
          bulk_failed error_matches (think config) w) \<and>
   ((\<forall>e. fst (SelfHosted_stream_request fetch JSON_parse decoder
                (config\<lparr>stream := True, think := True\<rparr>) config st) = Some e \<longrightarrow>
          (\<exists>b. thinking_unsupported e = Inr b)) \<longrightarrow>
      SelfHosted_streamResponse fetch JSON_parse decoder config st =
        retry_state_machine
          (\<lambda>t. SelfHosted_stream_request fetch JSON_parse decoder
                  (config\<lparr>stream := True, think := t\<rparr>) config)
          (\<lambda>r. r) error_matches (think config) st) \<and>
   (map_of kvs (js ''error'') = Some (JStr msg) \<longrightarrow>
      thinking_unsupported (HttpError n (JObj kvs)) =
        Inr (regex_search msg (js ''does not support thinking''))) \<and>
   (map_of kvs (js ''error'') = None \<longrightarrow>
      thinking_unsupported (HttpError n (JObj kvs)) = Inr False) \<and>
   thinking_unsupported (HttpError n (JStr raw)) = Inr False \<and>
   thinking_unsupported (JsError name) = Inr False"
proof -
  note g = generateResponse_cases[of config fetch JSON_parse w v w1 err matched]
  note s = streamResponse_cases[of config fetch JSON_parse decoder st st1 err matched]
  have gm: "(\<forall>e. bulk_failed (fst (SelfHosted_bulk_request fetch JSON_parse
                (config\<lparr>stream := False, think := True\<rparr>) w)) = Some e \<longrightarrow>
          (\<exists>b. thinking_unsupported e = Inr b)) \<longrightarrow>
      SelfHosted_generateResponse fetch JSON_parse config w =
        retry_state_machine
          (\<lambda>t. SelfHosted_bulk_request fetch JSON_parse (config\<lparr>stream := False, think := t\<rparr>))
          bulk_failed error_matches (think config) w"
    using generateResponse_machine[of fetch JSON_parse config w] by blast
  have sm: "(\<forall>e. fst (SelfHosted_stream_request fetch JSON_parse decoder
                (config\<lparr>stream := True, think := True\<rparr>) config st) = Some e \<longrightarrow>
          (\<exists>b. thinking_unsupported e = Inr b)) \<longrightarrow>
      SelfHosted_streamResponse fetch JSON_parse decoder config st =
        retry_state_machine
          (\<lambda>t. SelfHosted_stream_request fetch JSON_parse decoder
                  (config\<lparr>stream := True, think := t\<rparr>) config)
          (\<lambda>r. r) error_matches (think config) st"
    using streamResponse_machine[of fetch JSON_parse decoder config st] by blast
  show ?thesis
    using g s gm sm error_field_match[of kvs msg n] no_error_field_no_match[of kvs n]
      raw_body_no_match[of n raw] js_error_no_match[of name]
    by (intro conjI; blast)
qed

text \<open>
  Instances, on a state that counts the requests: against a backend without thinking,
  both operations send two requests and give the second one's result; against a backend
  that answers 404, both send one request and fail with its error.
\<close>

theorem think_retry_on_error_field_witness:
  \<open>SelfHosted_bulk_request ollama_without_thinking example_JSON_parse
      (example_config\<lparr>stream := False, think := True\<rparr>) 0
     = (Inl (HttpError 400
               (JObj [(js ''error'', JStr (js ''model does not support thinking''))])), 1) \<and>
   thinking_unsupported
     (HttpError 400 (JObj [(js ''error'', JStr (js ''model does not support thinking''))]))
     = Inr True \<and>
   SelfHosted_generateResponse ollama_without_thinking example_JSON_parse example_config 0
     = (Inr (JStr (js ''hello'')), 2) \<and>
   SelfHosted_streamResponse ollama_without_thinking example_JSON_parse utf8_decoder
       example_config ([], 0)
     = (None, ([OnContent (js ''a''), OnDone], 2)) \<and>
   thinking_unsupported (HttpError 404 (JObj [(js ''error'', JStr (js ''model not found''))]))
     = Inr False \<and>
   SelfHosted_generateResponse ollama_model_not_found example_JSON_parse example_config 0
     = (Inl (HttpError 404 (JObj [(js ''error'', JStr (js ''model not found''))])), 1) \<and>
   SelfHosted_streamResponse ollama_model_not_found example_JSON_parse utf8_decoder
       example_config ([], 0)
     = (Some (HttpError 404 (JObj [(js ''error'', JStr (js ''model not found''))])), ([], 1))\<close>
proof -
  have t: "think example_config" by (simp add: example_config_def)
  have b1: \<open>SelfHosted_bulk_request ollama_without_thinking example_JSON_parse
      (example_config\<lparr>stream := False, think := True\<rparr>) 0
     = (Inl (HttpError 400
               (JObj [(js ''error'', JStr (js ''model does not support thinking''))])), 1)\<close>
    by code_simp
  have b2: \<open>SelfHosted_bulk_request ollama_without_thinking example_JSON_parse
      (example_config\<lparr>stream := False, think := False\<rparr>) 1 = (Inr (JStr (js ''hello'')), 2)\<close>
    by code_simp
  have s1: \<open>SelfHosted_stream_request ollama_without_thinking example_JSON_parse utf8_decoder
      (example_config\<lparr>stream := True, think := True\<rparr>) example_config ([], 0)
     = (Some (HttpError 400
               (JObj [(js ''error'', JStr (js ''model does not support thinking''))])), ([], 1))\<close>
    by code_simp
  have s2: \<open>SelfHosted_stream_request ollama_without_thinking example_JSON_parse utf8_decoder
      (example_config\<lparr>stream := True, think := False\<rparr>) example_config ([], 1)
     = (None, ([OnContent (js ''a''), OnDone], 2))\<close>
    by code_simp
  have m: \<open>thinking_unsupported
     (HttpError 400 (JObj [(js ''error'', JStr (js ''model does not support thinking''))]))
     = Inr True\<close>
    by code_simp
  have b3: \<open>SelfHosted_bulk_request ollama_model_not_found example_JSON_parse
      (example_config\<lparr>stream := False, think := True\<rparr>) 0
     = (Inl (HttpError 404 (JObj [(js ''error'', JStr (js ''model not found''))])), 1)\<close>
    by code_simp
  have s3: \<open>SelfHosted_stream_request ollama_model_not_found example_JSON_parse utf8_decoder
      (example_config\<lparr>stream := True, think := True\<rparr>) example_config ([], 0)
     = (Some (HttpError 404 (JObj [(js ''error'', JStr (js ''model not found''))])), ([], 1))\<close>
    by code_simp
  have n: \<open>thinking_unsupported (HttpError 404 (JObj [(js ''error'', JStr (js ''model not found''))]))
     = Inr False\<close>
    by code_simp
  note T1 = think_retry_on_error_field[where fetch = ollama_without_thinking
        and JSON_parse = example_JSON_parse and config = example_config and w = 0
        and decoder = utf8_decoder and st = "([], 0)"
        and err = \<open>HttpError 400
               (JObj [(js ''error'', JStr (js ''model does not support thinking''))])\<close>
        and matched = True and ?w1.0 = 1 and ?st1.0 = "([], 1)"]
  note T2 = think_retry_on_error_field[where fetch = ollama_model_not_found
        and JSON_parse = example_JSON_parse and config = example_config and w = 0
        and decoder = utf8_decoder and st = "([], 0)"
        and err = \<open>HttpError 404 (JObj [(js ''error'', JStr (js ''model not found''))])\<close>
        and matched = False and ?w1.0 = 1 and ?st1.0 = "([], 1)"]
  have g1: \<open>SelfHosted_generateResponse ollama_without_thinking example_JSON_parse example_config 0
     = (Inr (JStr (js ''hello'')), 2)\<close>
    using T1[THEN conjunct1] t b1 m b2 by simp
  have r1: \<open>SelfHosted_streamResponse ollama_without_thinking example_JSON_parse utf8_decoder
       example_config ([], 0) = (None, ([OnContent (js ''a''), OnDone], 2))\<close>
    using T1[THEN conjunct2, THEN conjunct1] t s1 m s2 by simp
  have g2: \<open>SelfHosted_generateResponse ollama_model_not_found example_JSON_parse example_config 0
     = (Inl (HttpError 404 (JObj [(js ''error'', JStr (js ''model not found''))])), 1)\<close>
    using T2[THEN conjunct1] t b3 n by simp
  have r2: \<open>SelfHosted_streamResponse ollama_model_not_found example_JSON_parse utf8_decoder
       example_config ([], 0)
     = (Some (HttpError 404 (JObj [(js ''error'', JStr (js ''model not found''))])), ([], 1))\<close>
    using T2[THEN conjunct2, THEN conjunct1] t s3 n by simp
  show ?thesis
    using b1 m g1 r1 n g2 r2 by (intro conjI)
qed

text \<open>
  Claim C3 as it is stated fails in two places. A backend answers 400 with the plain
  text \<open>model does not support thinking\<close>: the body matches the pattern, but the code
  reads the property \<open>error\<close> of the body, which a string does not have, sends no second
  request, and fails with the first error. A backend answers 400 with the body
  \<open>{"error":{"toString":0}}\<close>: the body does not match the pattern, and the call fails with
  the TypeError of the test, not with the error of the first attempt.
\<close>

theorem think_retry_raw_body_counterexample:
  \<open>regex_search (js ''model does not support thinking'') (js ''does not support thinking'') \<and>
   SelfHosted_bulk_request ollama_plain_text_error example_JSON_parse
       (example_config\<lparr>stream := False, think := True\<rparr>) 0
     = (Inl (HttpError 400 (JStr (js ''model does not support thinking''))), 1) \<and>
   SelfHosted_generateResponse ollama_plain_text_error example_JSON_parse example_config 0
     = (Inl (HttpError 400 (JStr (js ''model does not support thinking''))), 1) \<and>
   SelfHosted_generateResponse ollama_plain_text_error example_JSON_parse example_config 0
     \<noteq> SelfHosted_bulk_request ollama_plain_text_error example_JSON_parse
         (example_config\<lparr>stream := False, think := False\<rparr>) 1 \<and>
   \<not> regex_search (js ''{"error":{"toString":0}}'') (js ''does not support thinking'') \<and>
   SelfHosted_bulk_request ollama_unconvertible_error example_JSON_parse
       (example_config\<lparr>stream := False, think := True\<rparr>) 0
     = (Inl (HttpError 400 (JObj [(js ''error'', JObj [(js ''toString'', JNum (Finite 0))])])), 1) \<and>
   SelfHosted_generateResponse ollama_unconvertible_error example_JSON_parse example_config 0
     = (Inl (JsError ''TypeError''), 1) \<and>
   SelfHosted_generateResponse ollama_unconvertible_error example_JSON_parse example_config 0
     \<noteq> (Inl (HttpError 400 (JObj [(js ''error'', JObj [(js ''toString'', JNum (Finite 0))])])), 1)\<close>
  by code_simp

subsection \<open>A reply without content\<close>

lemma js_or_not_nullish: "\<not> nullish (js_or v (JStr []))"
  by (cases v) (auto simp: js_or_def nullish_def)

lemma OpenAI_bulk_ok:
  assumes "fetch (OpenAI_buildPayload (config\<lparr>stream := False\<rparr>)) w = (Inr resp, w1)"
    "resp_ok resp" "JSON_parse (resp_text resp) = Some data"
  shows "OpenAI_generateResponse fetch JSON_parse config w =
           (Inr (js_or (or_undefined (path_lookup data cloud_bulk_path)) (JStr [])), w1)"
  using assms
  by (simp add: OpenAI_generateResponse_def OpenAI_sendRequestInternal_def resp_json_def
        parse_or_throw_def cloud_bulk_chain)

lemma SelfHosted_bulk_ok:
  assumes "fetch (SelfHosted_buildPayload request) w = (Inr resp, w1)"
    "resp_ok resp" "JSON_parse (resp_text resp) = Some data"
  shows "SelfHosted_bulk_request fetch JSON_parse request w =
           (Inr (js_or (or_undefined (path_lookup data selfhosted_bulk_path)) (JStr [])), w1)"
  using assms
  by (simp add: SelfHosted_bulk_request_def SelfHosted_sendRequestInternal_def resp_json_def
        parse_or_throw_def selfhosted_bulk_chain)

text \<open>A 2xx reply whose body \<open>JSON.parse\<close> rejects: \<open>resp.json()\<close> throws, outside any \<open>try\<close>.\<close>

lemma OpenAI_bulk_not_json:
  assumes "fetch (OpenAI_buildPayload (config\<lparr>stream := False\<rparr>)) w = (Inr resp, w1)"
    "resp_ok resp" "JSON_parse (resp_text resp) = None"
  shows "OpenAI_generateResponse fetch JSON_parse config w = (Inl (JsError ''SyntaxError''), w1)"
  using assms
  by (simp add: OpenAI_generateResponse_def OpenAI_sendRequestInternal_def resp_json_def
        parse_or_throw_def)

text \<open>
  Claim C9, as the code has it. When the backend answers 2xx with a body that is JSON and
  lacks the content path (\<open>choices[0].message.content\<close> for the cloud provider,
  \<open>message.content\<close> for the self-hosted one), \<open>generateResponse\<close> returns the empty string,
  and does not throw: for the cloud request, for the first request of the self-hosted
  provider (sent with \<open>think\<close> as the request has it), and for its retry without thinking.
  Whatever JSON the body of a 2xx reply is, what \<open>generateResponse\<close> returns is neither
  \<open>null\<close> nor \<open>undefined\<close>.
\<close>

theorem generateResponse_empty_on_missing_path:
  "(cloud_fetch (OpenAI_buildPayload (cloud_config\<lparr>stream := False\<rparr>)) w = (Inr resp, w1) \<and>
    resp_ok resp \<and> JSON_parse (resp_text resp) = Some data \<and>
    path_lookup data cloud_bulk_path = None \<longrightarrow>
      OpenAI_generateResponse cloud_fetch JSON_parse cloud_config w = (Inr (JStr []), w1)) \<and>
   (fetch (SelfHosted_buildPayload (config\<lparr>stream := False, think := think config\<rparr>)) w
      = (Inr resp, w1) \<and>
    resp_ok resp \<and> JSON_parse (resp_text resp) = Some data \<and>
    path_lookup data selfhosted_bulk_path = None \<longrightarrow>
      SelfHosted_generateResponse fetch JSON_parse config w = (Inr (JStr []), w1)) \<and>
   (think config \<and>
    SelfHosted_bulk_request fetch JSON_parse (config\<lparr>stream := False, think := True\<rparr>) w
      = (Inl err, w0) \<and> thinking_unsupported err = Inr True \<and>
    fetch (SelfHosted_buildPayload (config\<lparr>stream := False, think := False\<rparr>)) w0
      = (Inr resp, w1) \<and>
    resp_ok resp \<and> JSON_parse (resp_text resp) = Some data \<and>
    path_lookup data selfhosted_bulk_path = None \<longrightarrow>
      SelfHosted_generateResponse fetch JSON_parse config w = (Inr (JStr []), w1)) \<and>
   (cloud_fetch (OpenAI_buildPayload (cloud_config\<lparr>stream := False\<rparr>)) w = (Inr resp, w1) \<and>
    resp_ok resp \<and> JSON_parse (resp_text resp) = Some data \<longrightarrow>
      (\<exists>v. OpenAI_generateResponse cloud_fetch JSON_parse cloud_config w = (Inr v, w1) \<and>
           \<not> nullish v)) \<and>
   (fetch (SelfHosted_buildPayload (config\<lparr>stream := False, think := think config\<rparr>)) w
      = (Inr resp, w1) \<and>
    resp_ok resp \<and> JSON_parse (resp_text resp) = Some data \<longrightarrow>
      (\<exists>v. SelfHosted_generateResponse fetch JSON_parse config w = (Inr v, w1) \<and>
           \<not> nullish v))"
proof -
  have first: "SelfHosted_generateResponse fetch JSON_parse config w =
      (Inr (js_or (or_undefined (path_lookup data selfhosted_bulk_path)) (JStr [])), w1)"
    if "fetch (SelfHosted_buildPayload (config\<lparr>stream := False, think := think config\<rparr>)) w
          = (Inr resp, w1)"
      "resp_ok resp" "JSON_parse (resp_text resp) = Some data"
  proof (cases "think config")
    case True
    then have "SelfHosted_bulk_request fetch JSON_parse (config\<lparr>stream := False, think := True\<rparr>) w
        = (Inr (js_or (or_undefined (path_lookup data selfhosted_bulk_path)) (JStr [])), w1)"
      using SelfHosted_bulk_ok[of fetch "config\<lparr>stream := False, think := True\<rparr>" w resp w1
          JSON_parse data] that by simp
    then show ?thesis using True by (simp add: SelfHosted_generateResponse_def)
  next
    case False
    then have "SelfHosted_bulk_request fetch JSON_parse (config\<lparr>stream := False, think := False\<rparr>) w
        = (Inr (js_or (or_undefined (path_lookup data selfhosted_bulk_path)) (JStr [])), w1)"
      using SelfHosted_bulk_ok[of fetch "config\<lparr>stream := False, think := False\<rparr>" w resp w1
          JSON_parse data] that by simp
    then show ?thesis using False by (simp add: SelfHosted_generateResponse_def)
  qed
  have 1: "OpenAI_generateResponse cloud_fetch JSON_parse cloud_config w = (Inr (JStr []), w1)"
    if "cloud_fetch (OpenAI_buildPayload (cloud_config\<lparr>stream := False\<rparr>)) w = (Inr resp, w1)"
      "resp_ok resp" "JSON_parse (resp_text resp) = Some data"
      "path_lookup data cloud_bulk_path = None"
    using OpenAI_bulk_ok[where fetch = cloud_fetch and JSON_parse = JSON_parse, OF that(1,2,3)]
      that(4) by (simp add: js_or_def)
  have 2: "SelfHosted_generateResponse fetch JSON_parse config w = (Inr (JStr []), w1)"
    if "fetch (SelfHosted_buildPayload (config\<lparr>stream := False, think := think config\<rparr>)) w
          = (Inr resp, w1)"
      "resp_ok resp" "JSON_parse (resp_text resp) = Some data"
      "path_lookup data selfhosted_bulk_path = None"
    using first[OF that(1,2,3)] that(4) by (simp add: js_or_def)
  have 3: "SelfHosted_generateResponse fetch JSON_parse config w = (Inr (JStr []), w1)"
    if "think config"
      "SelfHosted_bulk_request fetch JSON_parse (config\<lparr>stream := False, think := True\<rparr>) w
         = (Inl err, w0)" "thinking_unsupported err = Inr True"
      "fetch (SelfHosted_buildPayload (config\<lparr>stream := False, think := False\<rparr>)) w0
         = (Inr resp, w1)"
      "resp_ok resp" "JSON_parse (resp_text resp) = Some data"
      "path_lookup data selfhosted_bulk_path = None"
  proof -
    have "SelfHosted_bulk_request fetch JSON_parse (config\<lparr>stream := False, think := False\<rparr>) w0
        = (Inr (JStr []), w1)"
      using SelfHosted_bulk_ok[where fetch = fetch and JSON_parse = JSON_parse, OF that(4,5,6)]
        that(7) by (simp add: js_or_def)
    then show ?thesis using that(1,2,3)
      by (simp add: SelfHosted_generateResponse_def thinking_unsupported_def)
  qed
  have 4: "\<exists>v. OpenAI_generateResponse cloud_fetch JSON_parse cloud_config w = (Inr v, w1) \<and>
           \<not> nullish v"
    if "cloud_fetch (OpenAI_buildPayload (cloud_config\<lparr>stream := False\<rparr>)) w = (Inr resp, w1)"
      "resp_ok resp" "JSON_parse (resp_text resp) = Some data"
    using OpenAI_bulk_ok[where fetch = cloud_fetch and JSON_parse = JSON_parse, OF that]
      js_or_not_nullish by simp
  have 5: "\<exists>v. SelfHosted_generateResponse fetch JSON_parse config w = (Inr v, w1) \<and>
           \<not> nullish v"
    if "fetch (SelfHosted_buildPayload (config\<lparr>stream := False, think := think config\<rparr>)) w
          = (Inr resp, w1)"
      "resp_ok resp" "JSON_parse (resp_text resp) = Some data"
    using first[OF that] js_or_not_nullish by simp
  show ?thesis using 1 2 3 4 5 by (intro conjI; blast)
qed

theorem generateResponse_empty_on_missing_path_witness:
  \<open>openai_no_choices (OpenAI_buildPayload (example_config\<lparr>stream := False\<rparr>)) 0
     = (Inr \<lparr>resp_ok = True, resp_status = 200, resp_text = js ''{"choices":[]}'',
             resp_body = no_body\<rparr>, 1) \<and>
   example_JSON_parse (js ''{"choices":[]}'') = Some (JObj [(js ''choices'', JArr [])]) \<and>
   path_lookup (JObj [(js ''choices'', JArr [])]) cloud_bulk_path = None \<and>
   OpenAI_generateResponse openai_no_choices example_JSON_parse example_config 0
     = (Inr (JStr []), 1) \<and>
   ollama_empty_message
       (SelfHosted_buildPayload (example_config\<lparr>stream := False, think := think example_config\<rparr>)) 0
     = (Inr \<lparr>resp_ok = True, resp_status = 200, resp_text = js ''{"message":{}}'',
             resp_body = no_body\<rparr>, 1) \<and>
   example_JSON_parse (js ''{"message":{}}'') = Some (JObj [(js ''message'', JObj [])]) \<and>
   path_lookup (JObj [(js ''message'', JObj [])]) selfhosted_bulk_path = None \<and>
   SelfHosted_generateResponse ollama_empty_message example_JSON_parse example_config 0
     = (Inr (JStr []), 1)\<close>
proof -
  have c1: \<open>openai_no_choices (OpenAI_buildPayload (example_config\<lparr>stream := False\<rparr>)) 0
     = (Inr \<lparr>resp_ok = True, resp_status = 200, resp_text = js ''{"choices":[]}'',
             resp_body = no_body\<rparr>, 1)\<close>
    by (simp add: openai_no_choices_def)
  have c2: \<open>example_JSON_parse (js ''{"choices":[]}'') = Some (JObj [(js ''choices'', JArr [])])\<close>
    by (simp add: example_JSON_parse_def example_JSON_texts_def js_def)
  have c3: "path_lookup (JObj [(js ''choices'', JArr [])]) cloud_bulk_path = None"
    by (simp add: cloud_bulk_path_def)
  have s1: \<open>ollama_empty_message
       (SelfHosted_buildPayload (example_config\<lparr>stream := False, think := think example_config\<rparr>)) 0
     = (Inr \<lparr>resp_ok = True, resp_status = 200, resp_text = js ''{"message":{}}'',
             resp_body = no_body\<rparr>, 1)\<close>
    by (simp add: ollama_empty_message_def)
  have s2: \<open>example_JSON_parse (js ''{"message":{}}'') = Some (JObj [(js ''message'', JObj [])])\<close>
    by (simp add: example_JSON_parse_def example_JSON_texts_def js_def)
  have s3: "path_lookup (JObj [(js ''message'', JObj [])]) selfhosted_bulk_path = None"
    by (simp add: selfhosted_bulk_path_def js_def)
  note T = generateResponse_empty_on_missing_path[where cloud_fetch = openai_no_choices
      and cloud_config = example_config and w = 0 and ?w1.0 = 1 and JSON_parse = example_JSON_parse]
  have g1: "OpenAI_generateResponse openai_no_choices example_JSON_parse example_config 0
     = (Inr (JStr []), 1)"
    using T[where resp = \<open>\<lparr>resp_ok = True, resp_status = 200, resp_text = js ''{"choices":[]}'',
             resp_body = no_body\<rparr>\<close> and data = "JObj [(js ''choices'', JArr [])]",
          THEN conjunct1] c1 c2 c3 by simp
  have g2: "SelfHosted_generateResponse ollama_empty_message example_JSON_parse example_config 0
     = (Inr (JStr []), 1)"
    using T[where resp = \<open>\<lparr>resp_ok = True, resp_status = 200, resp_text = js ''{"message":{}}'',
             resp_body = no_body\<rparr>\<close> and data = "JObj [(js ''message'', JObj [])]"
          and fetch = ollama_empty_message and config = example_config,
          THEN conjunct2, THEN conjunct1] s1 s2 s3 by simp
  show ?thesis using c1 c2 c3 g1 s1 s2 s3 g2 by (intro conjI)
qed

text \<open>
  Claim C9 as it is stated fails on a reply 200 whose body is the text \<open>OK\<close>: the body is
  not JSON, so it lacks the content path, and \<open>resp.json()\<close>, which no \<open>try\<close> encloses
  in the cloud provider and whose error the \<open>catch\<close> clause of the self-hosted provider
  throws again, makes \<open>generateResponse\<close> throw a SyntaxError.
\<close>

theorem generateResponse_non_json_body_counterexample:
  "openai_plain_ok (OpenAI_buildPayload (example_config\<lparr>stream := False\<rparr>)) 0
     = (Inr \<lparr>resp_ok = True, resp_status = 200, resp_text = js ''OK'', resp_body = no_body\<rparr>, 1) \<and>
   example_JSON_parse (js ''OK'') = None \<and>
   OpenAI_generateResponse openai_plain_ok example_JSON_parse example_config 0
     = (Inl (JsError ''SyntaxError''), 1) \<and>
   OpenAI_generateResponse openai_plain_ok example_JSON_parse example_config 0
     \<noteq> (Inr (JStr []), 1) \<and>
   ollama_plain_ok
       (SelfHosted_buildPayload (example_config\<lparr>stream := False, think := True\<rparr>)) 0
     = (Inr \<lparr>resp_ok = True, resp_status = 200, resp_text = js ''OK'', resp_body = no_body\<rparr>, 1) \<and>
   SelfHosted_generateResponse ollama_plain_ok example_JSON_parse example_config 0
     = (Inl (JsError ''SyntaxError''), 1) \<and>
   SelfHosted_generateResponse ollama_plain_ok example_JSON_parse example_config 0
     \<noteq> (Inr (JStr []), 1)"
  by code_simp

end
